theory Spec2Isabelle
  imports Main "HOL-Library.Word"
begin

unbundle bit_operations_syntax

section \<open>Strings, bytes and the Go library functions the collection uses\<close>

text \<open>
  A Go \<^verbatim>\<open>string\<close> is a sequence of bytes; \<^verbatim>\<open>len(s)\<close> counts bytes and
  \<^verbatim>\<open>s[a:b]\<close> slices bytes. HOL's \<^typ>\<open>string\<close> is a list of 8-bit characters, so
  \<^term>\<open>length\<close>, \<^term>\<open>take\<close> and \<^term>\<open>drop\<close> are the byte operations.
  A \<^verbatim>\<open>[]byte\<close> is a list of 8-bit words.
\<close>

type_synonym byte = "8 word"
type_synonym bytes = "byte list"

subsection \<open>\<^verbatim>\<open>utf8.RuneCountInString\<close>\<close>

text \<open>
  \<^verbatim>\<open>fmt\<close> measures the width of a string operand in runes, so the padding of
  \<^verbatim>\<open>%04s\<close> depends on Go's UTF-8 decoder. \<open>rune_size\<close> is the number of bytes
  the decoder consumes for the first rune of a non-empty string, given as byte values: the
  encoded length when the bytes start with a well-formed encoding (no overlong form, no
  surrogate, nothing above U+10FFFF), and 1 otherwise (an invalid byte counts as one rune).
\<close>

definition locb :: nat where "locb = 0x80"
definition hicb :: nat where "hicb = 0xBF"

definition rune_size :: "nat \<Rightarrow> nat list \<Rightarrow> nat" where
  "rune_size c cs =
     (if c < 0x80 then 1
      else if c < 0xC2 \<or> 0xF4 < c then 1
      else
        let size = (if c < 0xE0 then 2 else if c < 0xF0 then 3 else 4);
            lo = (if c = 0xE0 then 0xA0 else if c = 0xF0 then 0x90 else locb);
            hi = (if c = 0xED then 0x9F else if c = 0xF4 then 0x8F else hicb)
        in if Suc (length cs) < size then 1
           else if cs ! 0 < lo \<or> hi < cs ! 0 then 1
           else if size = 2 then 2
           else if cs ! 1 < locb \<or> hicb < cs ! 1 then 1
           else if size = 3 then 3
           else if cs ! 2 < locb \<or> hicb < cs ! 2 then 1
           else 4)"

function rune_count :: "nat list \<Rightarrow> nat" where
  "rune_count [] = 0"
| "rune_count (c # cs) = Suc (rune_count (drop (rune_size c cs - 1) cs))"
  by pat_completeness auto
termination
  by (relation "measure length") auto

definition RuneCountInString :: "string \<Rightarrow> nat" where
  "RuneCountInString s = rune_count (map of_char s)"

subsection \<open>\<^verbatim>\<open>fmt.Sprintf\<close> with the two formats of the source\<close>

text \<open>
  \<^verbatim>\<open>fmt.Sprintf("%04s", s)\<close>: width 4 with the \<^verbatim>\<open>0\<close> flag. \<^verbatim>\<open>fmt\<close> pads on
  the left up to the width, counted in runes, and the \<^verbatim>\<open>0\<close> flag makes the padding
  byte \<^verbatim>\<open>'0'\<close> instead of a space, for strings as for numbers.
\<close>

definition Sprintf_04s :: "string \<Rightarrow> string" where
  "Sprintf_04s s = replicate (4 - RuneCountInString s) (CHR ''0'') @ s"

section \<open>KeySharder: \<^verbatim>\<open>transformFunc\<close>\<close>

text \<open>
  \<^verbatim>\<open>
  func transformFunc(s string) []string {
      if s == "_next_id" { return []string{} }
      data := ""
      if len(s) < 4 { data = fmt.Sprintf("%04s", s) } else { data = s[len(s)-4:] }
      return []string{data[2:4], data[0:2]}
  }
  \<close>
  The slices \<^verbatim>\<open>data[2:4]\<close> and \<^verbatim>\<open>data[0:2]\<close> are in range because \<open>data\<close> has at
  least 4 bytes on both branches (lemma \<open>transform_data_length\<close>), so the function never
  panics and the model needs no error branch.
\<close>

definition transform_data :: "string \<Rightarrow> string" where
  "transform_data s = (if length s < 4 then Sprintf_04s s else drop (length s - 4) s)"

definition transformFunc :: "string \<Rightarrow> string list" where
  "transformFunc s =
     (if s = ''_next_id'' then []
      else let data = transform_data s in [take 2 (drop 2 data), take 2 data])"

section \<open>Errors\<close>

text \<open>
  A Go \<^verbatim>\<open>error\<close> value. The source compares errors with \<^verbatim>\<open>io.EOF\<close> only, so the
  sentinel is a constructor of its own; every other error (\<^verbatim>\<open>errors.New\<close>, an error of the
  store, of the operating system, of the JSON encoder or of the entry decoder) is carried by its
  message.
\<close>

datatype error = EOF | errorString string

definition errors_New :: "string \<Rightarrow> error" where
  "errors_New msg = errorString msg"

fun Error :: "error \<Rightarrow> string" where
  "Error EOF = ''EOF''"
| "Error (errorString msg) = msg"

section \<open>Identifiers and their encodings\<close>

text \<open>\<^verbatim>\<open>type Id int64\<close>: a 64-bit word, read as signed by \<^term>\<open>sint\<close>; \<open>+\<close> wraps around.\<close>

type_synonym Id = "64 word"

subsection \<open>\<^verbatim>\<open>binary.PutVarint\<close> and \<^verbatim>\<open>binary.Varint\<close>\<close>

text \<open>
  \<^verbatim>\<open>
  func PutUvarint(buf []byte, x uint64) int {
      i := 0
      for x >= 0x80 { buf[i] = byte(x) | 0x80; x >>= 7; i++ }
      buf[i] = byte(x)
      return i + 1
  }
  func PutVarint(buf []byte, x int64) int {
      ux := uint64(x) << 1
      if x < 0 { ux = ^ux }
      return PutUvarint(buf, ux)
  }
  \<close>
  The model returns the bytes written, that is \<^verbatim>\<open>buf[:length]\<close>, which is what
  \<^verbatim>\<open>setNextId\<close> stores. The buffer of \<^verbatim>\<open>MaxVarintLen64\<close> bytes is never too small
  (lemma \<open>PutVarint_length\<close>).
\<close>

definition MaxVarintLen64 :: nat where
  "MaxVarintLen64 = 10"

function PutUvarint :: "64 word \<Rightarrow> bytes" where
  "PutUvarint x =
     (if 0x80 \<le> x then (ucast x OR 0x80) # PutUvarint (drop_bit 7 x) else [ucast x])"
  by pat_completeness auto
termination
proof (relation "measure unat")
  show "wf (measure unat)" by simp
next
  fix x :: "64 word"
  assume "0x80 \<le> x"
  then have "128 \<le> unat x" by (simp add: word_le_nat_alt)
  then have "unat x div 128 < unat x" by simp
  then show "(drop_bit 7 x, x) \<in> measure unat"
    by (simp add: drop_bit_eq_div unat_div)
qed

declare PutUvarint.simps [simp del]

definition PutVarint :: "Id \<Rightarrow> bytes" where
  "PutVarint x = (let ux = push_bit 1 x in PutUvarint (if sint x < 0 then NOT ux else ux))"

text \<open>
  \<^verbatim>\<open>
  func Uvarint(buf []byte) (uint64, int) {
      var x uint64
      var s uint
      for i, b := range buf {
          if i == MaxVarintLen64 { return 0, -(i + 1) }
          if b < 0x80 {
              if i == MaxVarintLen64-1 && b > 1 { return 0, -(i + 1) }
              return x | uint64(b)<<s, i + 1
          }
          x |= uint64(b&0x7f) << s
          s += 7
      }
      return 0, 0
  }
  func Varint(buf []byte) (int64, int) {
      ux, n := Uvarint(buf)
      x := int64(ux >> 1)
      if ux&1 != 0 { x = ^x }
      return x, n
  }
  \<close>
  An empty or truncated buffer decodes to the value 0.
\<close>

fun Uvarint_loop :: "64 word \<Rightarrow> nat \<Rightarrow> nat \<Rightarrow> bytes \<Rightarrow> 64 word \<times> int" where
  "Uvarint_loop x s i [] = (0, 0)"
| "Uvarint_loop x s i (b # buf) =
     (if i = MaxVarintLen64 then (0, - (int i + 1))
      else if b < 0x80 then
        (if i = MaxVarintLen64 - 1 \<and> 1 < b then (0, - (int i + 1))
         else (x OR push_bit s (ucast b), int i + 1))
      else Uvarint_loop (x OR push_bit s (ucast (b AND 0x7f))) (s + 7) (i + 1) buf)"

definition Uvarint :: "bytes \<Rightarrow> 64 word \<times> int" where
  "Uvarint buf = Uvarint_loop 0 0 0 buf"

definition Varint :: "bytes \<Rightarrow> Id \<times> int" where
  "Varint buf =
     (let (ux, n) = Uvarint buf; x = drop_bit 1 ux
      in (if ux AND 1 \<noteq> 0 then NOT x else x, n))"

subsection \<open>\<^verbatim>\<open>fmt.Sprintf("%d", id)\<close>: the record key\<close>

text \<open>
  The decimal digits of the signed value, most significant first, after a minus sign when it
  is negative.
\<close>

definition digit_char :: "nat \<Rightarrow> char" where
  "digit_char n = char_of (48 + n)"

fun decimal :: "nat \<Rightarrow> string" where
  "decimal n = (if n < 10 then [digit_char n] else decimal (n div 10) @ [digit_char (n mod 10)])"

declare decimal.simps [simp del]

definition Sprintf_d :: "Id \<Rightarrow> string" where
  "Sprintf_d x =
     (if sint x < 0 then CHR ''-'' # decimal (nat (- sint x)) else decimal (nat (sint x)))"

section \<open>The underlying key-value store\<close>

text \<open>
  Modelled from the spec: the store is the external package \<^verbatim>\<open>diskv\<close>, whose code is not
  part of the repository. Section 6 of the specification gives its contract:
  \<^verbatim>\<open>write(key, value) -> Result\<close>, \<^verbatim>\<open>read(key) -> bytes | NotFound\<close>,
  \<^verbatim>\<open>erase(key) -> Result\<close>, with keys placed on disk by the KeySharder. A key is stored in a
  file named after the key itself, so the store is a finite map from keys to byte strings.

  Every operation may fail with an I/O error. The outcomes of the coming operations are part of
  the state: \<open>faults\<close> lists, for the operations still to come, whether each one fails; once
  the list is exhausted no operation fails any more. An operation that fails leaves the stored
  data as it was.
\<close>

record Diskv =
  files :: "string \<rightharpoonup> bytes"
  faults :: "bool list"

definition next_fault :: "Diskv \<Rightarrow> bool \<times> Diskv" where
  "next_fault d = (case faults d of [] \<Rightarrow> (False, d) | f # fs \<Rightarrow> (f, d\<lparr>faults := fs\<rparr>))"

definition io_error :: error where
  "io_error = errorString ''input/output error''"

definition not_found :: "string \<Rightarrow> error" where
  "not_found key = errorString (''open '' @ key @ '': no such file or directory'')"

definition diskv_Write :: "Diskv \<Rightarrow> string \<Rightarrow> bytes \<Rightarrow> Diskv \<times> error option" where
  "diskv_Write d key val =
     (let (fails, d') = next_fault d
      in if fails then (d', Some io_error)
         else (d'\<lparr>files := (files d')(key \<mapsto> val)\<rparr>, None))"

definition diskv_Read :: "Diskv \<Rightarrow> string \<Rightarrow> Diskv \<times> bytes \<times> error option" where
  "diskv_Read d key =
     (let (fails, d') = next_fault d
      in if fails then (d', [], Some io_error)
         else (case files d' key of
                 None \<Rightarrow> (d', [], Some (not_found key))
               | Some val \<Rightarrow> (d', val, None)))"

definition diskv_Erase :: "Diskv \<Rightarrow> string \<Rightarrow> Diskv \<times> error option" where
  "diskv_Erase d key =
     (let (fails, d') = next_fault d
      in if fails then (d', Some io_error)
         else (case files d' key of
                 None \<Rightarrow> (d', Some (not_found key))
               | Some val \<Rightarrow> (d'\<lparr>files := (files d')(key := None)\<rparr>, None)))"

section \<open>Index entries, index tables and index log files\<close>

text \<open>
  Modelled from the spec: the types \<^verbatim>\<open>indexEntry\<close> and \<^verbatim>\<open>index\<close> and their functions
  \<^verbatim>\<open>ReadFrom\<close>, \<^verbatim>\<open>Deleted\<close>, \<^verbatim>\<open>newIndex\<close> and \<^verbatim>\<open>Add\<close> are used by
  \<^verbatim>\<open>collection.go\<close> and defined outside it. Section 3 of the specification
  gives an IndexEntry as \<^verbatim>\<open>{ fieldValue: bytes, identifier: Identifier, deleted: bool }\<close>;
  the source adds the field \<^verbatim>\<open>fpos\<close>, the offset of the entry in its file. An IndexTable is
  an "in-memory mapping: fieldValue -> set of Identifier", here the set of its
  (fieldValue, identifier) pairs, and for each entry added the table gets the mapping
  "(fieldValue -> identifier)" (section 4.4).
\<close>

record indexEntry =
  deleted :: bool
  fieldValue :: string
  ident :: Id
  fpos :: int

definition Deleted :: "indexEntry \<Rightarrow> bool" where
  "Deleted entry = deleted entry"

record index =
  idx_file :: string
  idx_field :: string
  idx_data :: "(string \<times> Id) set"

definition newIndex :: "string \<Rightarrow> string \<Rightarrow> index" where
  "newIndex file field = \<lparr>idx_file = file, idx_field = field, idx_data = {}\<rparr>"

definition Add :: "index \<Rightarrow> indexEntry \<Rightarrow> index" where
  "Add idx entry = idx\<lparr>idx_data := insert (fieldValue entry, ident entry) (idx_data idx)\<rparr>"

text \<open>
  Modelled from the spec: an index log file as the decoder \<^verbatim>\<open>ReadFrom\<close> sees it. The
  entries are "length-prefixed" records and "a stream of entries is terminated by end-of-file"
  (section 3): the file is the list of its records in file order, each with the number of bytes
  it occupies, followed by the error that \<^verbatim>\<open>ReadFrom\<close> returns after the last record:
  \<^verbatim>\<open>io.EOF\<close> at a clean end of file, another error where the bytes that follow cannot be
  decoded.
\<close>

record logfile =
  lf_records :: "(nat \<times> indexEntry) list"
  lf_end :: error

section \<open>The operating system as the collection sees it\<close>

text \<open>
  \<^verbatim>\<open>filepath.Walk\<close> calls its function once for every file and directory under the root,
  the root included, in lexical order; a visit carries the path and the \<^verbatim>\<open>os.FileInfo\<close>,
  which is \<^verbatim>\<open>nil\<close> when the root cannot be examined. Of the info the source uses the mode
  bits only: \<^verbatim>\<open>os.FileMode\<close> is a \<^verbatim>\<open>uint32\<close>, and \<^verbatim>\<open>os.ModeType\<close> is the mask of
  its file type bits (directory, symbolic link, named pipe, socket, device, character device,
  irregular file), so a mode without any of them is that of a regular file.
\<close>

type_synonym FileMode = "32 word"

definition ModeType :: FileMode where
  "ModeType = 0x8F280000"

text \<open>
  The world outside the process, as far as \<^verbatim>\<open>collection.go\<close> looks at it:
  \<^item> \<open>stores\<close>: for a base path, the store that \<^verbatim>\<open>diskv.New\<close> finds there;
  \<^item> \<open>walks\<close>: for a root, the visits that \<^verbatim>\<open>filepath.Walk\<close> makes;
  \<^item> \<open>fs\<close>: the files that \<^verbatim>\<open>os.Open\<close> can open, by path, each as the index log that
    the entry decoder reads from it;
  \<^item> \<open>remove_fails\<close>: the paths on which \<^verbatim>\<open>os.Remove\<close> fails with an I/O error.
\<close>

record visit =
  v_path :: string
  v_info :: "FileMode option"

record World =
  stores :: "string \<Rightarrow> Diskv"
  walks :: "string \<Rightarrow> visit list"
  fs :: "string \<rightharpoonup> logfile"
  remove_fails :: "string \<Rightarrow> bool"

definition os_Open :: "World \<Rightarrow> string \<Rightarrow> error + logfile" where
  "os_Open w name = (case fs w name of None \<Rightarrow> Inl (not_found name) | Some file \<Rightarrow> Inr file)"

definition os_Remove :: "World \<Rightarrow> string \<Rightarrow> World \<times> error option" where
  "os_Remove w name =
     (case fs w name of
        None \<Rightarrow> (w, Some (errorString (''remove '' @ name @ '': no such file or directory'')))
      | Some file \<Rightarrow>
          if remove_fails w name
          then (w, Some (errorString (''remove '' @ name @ '': input/output error'')))
          else (w\<lparr>fs := (fs w)(name := None)\<rparr>, None))"

text \<open>
  \<^verbatim>\<open>filepath.Base\<close>: the last element of a path, after trailing slashes are removed;
  \<^verbatim>\<open>"."\<close> for the empty path and \<^verbatim>\<open>"/"\<close> for a path of slashes only.
\<close>

definition Base :: "string \<Rightarrow> string" where
  "Base path =
     (if path = [] then ''.''
      else let p = rev (dropWhile (\<lambda>c. c = CHR ''/'') (rev path))
           in if p = [] then ''/'' else rev (takeWhile (\<lambda>c. c \<noteq> CHR ''/'') (rev p)))"

section \<open>The collection\<close>

text \<open>
  \<^verbatim>\<open>
  type Collection struct {
      store     *diskv.Diskv
      indexpath string
      indexes   map[string]*index
  }
  \<close>
  The type \<^verbatim>\<open>Database\<close> is declared outside \<^verbatim>\<open>collection.go\<close>; the source uses its
  field \<^verbatim>\<open>path\<close> only.
\<close>

record Collection =
  store :: Diskv
  indexpath :: string
  indexes :: "string \<rightharpoonup> index"

record Database =
  path :: string

subsection \<open>\<^verbatim>\<open>loadIndex\<close> and \<^verbatim>\<open>loadIndexes\<close>\<close>

text \<open>
  \<^verbatim>\<open>
  for {
      fpos, _ := file.Seek(0, os.SEEK_CUR)
      var entry indexEntry
      _, err = entry.ReadFrom(file)
      if err != nil {
          if err == io.EOF { break }
          return err
      }
      if !entry.Deleted() {
          entry.fpos = fpos
          idx.Add(entry)
      }
  }
  \<close>
  The loop of \<^verbatim>\<open>loadIndex\<close>, which replays the log, is a recursion over the records still
  to be read; \<open>pos\<close> is the file offset that \<^verbatim>\<open>Seek\<close> reports, \<open>end\<close> the error of the
  read after the last record.
\<close>

fun replay :: "int \<Rightarrow> (nat \<times> indexEntry) list \<Rightarrow> error \<Rightarrow> index \<Rightarrow> error + index" where
  "replay pos [] end idx = (if end = EOF then Inr idx else Inl end)"
| "replay pos ((n, entry) # rest) end idx =
     replay (pos + int n) rest end
       (if \<not> Deleted entry then Add idx (entry\<lparr>fpos := pos\<rparr>) else idx)"

text \<open>
  \<^verbatim>\<open>
  func (c *Collection) loadIndex(filepath, field string) error {
      file, err := os.Open(filepath)
      if err != nil { return err }
      idx := newIndex(file, field)
      for { ... }
      c.indexes[field] = idx
      return nil
  }
  \<close>
\<close>

definition loadIndex :: "World \<Rightarrow> Collection \<Rightarrow> string \<Rightarrow> string \<Rightarrow> Collection \<times> error option" where
  "loadIndex w c filepath field =
     (case os_Open w filepath of
        Inl err \<Rightarrow> (c, Some err)
      | Inr file \<Rightarrow>
          (case replay 0 (lf_records file) (lf_end file) (newIndex filepath field) of
             Inl err \<Rightarrow> (c, Some err)
           | Inr idx \<Rightarrow> (c\<lparr>indexes := (indexes c)(field \<mapsto> idx)\<rparr>, None)))"

text \<open>
  \<^verbatim>\<open>
  filepath.Walk(c.indexpath, func(path string, info os.FileInfo, err error) error {
      if (info.Mode() & os.ModeType) == 0 {
          if err := c.loadIndex(path, filepath.Base(path)); err != nil {
              log.Printf("loadIndex %s failed: %v", path, err)
          }
      }
      return nil
  })
  \<close>
  The function given to \<^verbatim>\<open>Walk\<close> always returns \<^verbatim>\<open>nil\<close>, so the walk visits every
  entry. It works on the lines logged so far and the collection. \<^verbatim>\<open>info.Mode()\<close> on a
  \<^verbatim>\<open>nil\<close> info is a nil dereference: the panic is the result \<open>None\<close>.
\<close>

definition walkFn :: "World \<Rightarrow> string list \<times> Collection \<Rightarrow> visit \<Rightarrow> (string list \<times> Collection) option" where
  "walkFn w lc v =
     (case v_info v of
        None \<Rightarrow> None
      | Some mode \<Rightarrow>
          if mode AND ModeType = 0 then
            (case loadIndex w (snd lc) (v_path v) (Base (v_path v)) of
               (c', Some err) \<Rightarrow>
                 Some (fst lc @ [''loadIndex '' @ v_path v @ '' failed: '' @ Error err], c')
             | (c', None) \<Rightarrow> Some (fst lc, c'))
          else Some lc)"

fun Walk :: "World \<Rightarrow> visit list \<Rightarrow> string list \<times> Collection \<Rightarrow> (string list \<times> Collection) option" where
  "Walk w [] lc = Some lc"
| "Walk w (v # vs) lc = (case walkFn w lc v of None \<Rightarrow> None | Some lc' \<Rightarrow> Walk w vs lc')"

definition loadIndexes :: "World \<Rightarrow> string list \<times> Collection \<Rightarrow> (string list \<times> Collection) option" where
  "loadIndexes w lc = Walk w (walks w (indexpath (snd lc))) lc"

subsection \<open>The identifier allocator\<close>

text \<open>
  \<^verbatim>\<open>
  func (c *Collection) setNextId(next_id Id) {
      next_id_buf := make([]byte, binary.MaxVarintLen64)
      length := binary.PutVarint(next_id_buf, int64(next_id))
      c.store.Write("_next_id", next_id_buf[:length])
  }
  func (c *Collection) getNextId() Id {
      data, _ := c.store.Read("_next_id")
      next_id, _ := binary.Varint(data)
      c.setNextId(Id(next_id + 1))
      return Id(next_id)
  }
  \<close>
  Both functions drop the error of the store operation.
\<close>

definition setNextId :: "Collection \<Rightarrow> Id \<Rightarrow> Collection" where
  "setNextId c next_id = c\<lparr>store := fst (diskv_Write (store c) ''_next_id'' (PutVarint next_id))\<rparr>"

definition getNextId :: "Collection \<Rightarrow> Collection \<times> Id" where
  "getNextId c =
     (let (s, data, _) = diskv_Read (store c) ''_next_id'';
          (next_id, _) = Varint data
      in (setNextId (c\<lparr>store := s\<rparr>) (next_id + 1), next_id))"

subsection \<open>\<^verbatim>\<open>openColl\<close>\<close>

text \<open>
  \<^verbatim>\<open>
  func (db *Database) openColl(name string) *Collection {
      coll := &Collection{store: diskv.New(diskv.Options{
          BasePath: db.path + "/colls/" + name, Transform: transformFunc, CacheSizeMax: 0,
      }), indexpath: db.path + "/indexes/" + name, indexes: make(map[string]*index)}
      os.Mkdir(coll.indexpath, 0755)
      coll.loadIndexes()
      if _, err := coll.store.Read("_next_id"); err != nil {
          coll.setNextId(Id(1))
      }
      return coll
  }
  \<close>
  \<^verbatim>\<open>diskv.New\<close> gives the store found under the base path. The result of \<^verbatim>\<open>os.Mkdir\<close>
  is dropped; the directory it may create is empty, and the walk of the world is the one made
  after it. The result is the lines logged and the collection, or \<open>None\<close> for the panic of
  \<^verbatim>\<open>loadIndexes\<close>.
\<close>

definition openColl :: "Database \<Rightarrow> World \<Rightarrow> string \<Rightarrow> (string list \<times> Collection) option" where
  "openColl db w name =
     (let coll = \<lparr>store = stores w (path db @ ''/colls/'' @ name),
                  indexpath = path db @ ''/indexes/'' @ name,
                  indexes = Map.empty\<rparr>
      in case loadIndexes w ([], coll) of
           None \<Rightarrow> None
         | Some (lg, coll') \<Rightarrow>
             (case diskv_Read (store coll') ''_next_id'' of
                (s, _, Some err) \<Rightarrow> Some (lg, setNextId (coll'\<lparr>store := s\<rparr>) 1)
              | (s, _, None) \<Rightarrow> Some (lg, coll'\<lparr>store := s\<rparr>)))"

subsection \<open>Records: \<^verbatim>\<open>Insert\<close>, \<^verbatim>\<open>Update\<close>, \<^verbatim>\<open>Delete\<close>\<close>

text \<open>
  \<^verbatim>\<open>
  func (c *Collection) Insert(value interface{}) (Id, error) {
      jsondata, err := json.Marshal(value)
      if err != nil { return Id(0), err }
      id := c.getNextId()
      err = c.store.Write(fmt.Sprintf("%d", id), jsondata)
      if err != nil {
          c.setNextId(id) // roll back generated ID
          id = Id(0)      // set id to invalid value
      }
      return id, err
  }
  \<close>
  The encoder \<^verbatim>\<open>json.Marshal\<close> is a parameter: a function from the values of the caller to
  an error or the encoded bytes.
\<close>

definition Insert :: "('v \<Rightarrow> error + bytes) \<Rightarrow> Collection \<Rightarrow> 'v \<Rightarrow> Collection \<times> Id \<times> error option" where
  "Insert json_Marshal c val =
     (case json_Marshal val of
        Inl err \<Rightarrow> (c, 0, Some err)
      | Inr jsondata \<Rightarrow>
          (let (c1, new_id) = getNextId c;
               (s, err) = diskv_Write (store c1) (Sprintf_d new_id) jsondata;
               c2 = c1\<lparr>store := s\<rparr>
           in case err of
                Some e \<Rightarrow> (setNextId c2 new_id, 0, Some e)
              | None \<Rightarrow> (c2, new_id, None)))"

definition Update :: "('v \<Rightarrow> error + bytes) \<Rightarrow> Collection \<Rightarrow> Id \<Rightarrow> 'v \<Rightarrow> Collection \<times> error option" where
  "Update json_Marshal c rec_id val =
     (case json_Marshal val of
        Inl err \<Rightarrow> (c, Some err)
      | Inr jsondata \<Rightarrow>
          (let (s, err) = diskv_Write (store c) (Sprintf_d rec_id) jsondata
           in (c\<lparr>store := s\<rparr>, err)))"

definition Delete :: "Collection \<Rightarrow> Id \<Rightarrow> Collection \<times> error option" where
  "Delete c rec_id =
     (let (s, err) = diskv_Erase (store c) (Sprintf_d rec_id) in (c\<lparr>store := s\<rparr>, err))"

subsection \<open>Indexes: \<^verbatim>\<open>AddIndex\<close>, \<^verbatim>\<open>RemoveIndex\<close>, \<^verbatim>\<open>Reindex\<close>\<close>

text \<open>
  \<^verbatim>\<open>
  func (c *Collection) AddIndex(field string) error {
      return errors.New("adding index failed")
  }
  func (c *Collection) RemoveIndex(field string) error {
      delete(c.indexes, field)
      if err := os.Remove(c.indexpath + "/" + field); err != nil { return err }
      return nil
  }
  func (c *Collection) Reindex(field string) error {
      if err := c.RemoveIndex(field); err != nil { return err }
      return c.AddIndex(field)
  }
  \<close>
  Each function returns the world and the collection it leaves, with its error.
\<close>

definition AddIndex :: "World \<Rightarrow> Collection \<Rightarrow> string \<Rightarrow> World \<times> Collection \<times> error option" where
  "AddIndex w c field = (w, c, Some (errors_New ''adding index failed''))"

definition RemoveIndex :: "World \<Rightarrow> Collection \<Rightarrow> string \<Rightarrow> World \<times> Collection \<times> error option" where
  "RemoveIndex w c field =
     (let c' = c\<lparr>indexes := (indexes c)(field := None)\<rparr>;
          (w', r) = os_Remove w (indexpath c @ ''/'' @ field)
      in case r of
           Some err \<Rightarrow> (w', c', Some err)
         | None \<Rightarrow> (w', c', None))"

definition Reindex :: "World \<Rightarrow> Collection \<Rightarrow> string \<Rightarrow> World \<times> Collection \<times> error option" where
  "Reindex w c field =
     (case RemoveIndex w c field of
        (w', c', Some err) \<Rightarrow> (w', c', Some err)
      | (w', c', None) \<Rightarrow> AddIndex w' c' field)"

subsection \<open>Queries and \<^verbatim>\<open>Vacuum\<close>\<close>

text \<open>
  Modelled from the spec: the types \<^verbatim>\<open>Condition\<close> and \<^verbatim>\<open>Result\<close> are declared outside
  \<^verbatim>\<open>collection.go\<close>, which uses the condition \<^verbatim>\<open>True\<close> and the \<^verbatim>\<open>nil\<close> result.
  Section 4.6 of the specification lists the conditions and describes a result as a sequence
  of (Identifier, record) pairs.
  \<^verbatim>\<open>
  func (c *Collection) Query(q Condition) (*Result, error) {
      return nil, errors.New("query failed")
  }
  func (c *Collection) QueryAll() (*Result, error) { return c.Query(&True{}) }
  func (c *Collection) Vacuum() error { return nil }
  \<close>
\<close>

datatype Condition =
    True_cond
  | Equals string string
  | Range string string string
  | And "Condition list"
  | Or "Condition list"
  | Not_cond Condition

type_synonym Result = "(Id \<times> bytes) list"

definition Query :: "Collection \<Rightarrow> Condition \<Rightarrow> Result option \<times> error option" where
  "Query c q = (None, Some (errors_New ''query failed''))"

definition QueryAll :: "Collection \<Rightarrow> Result option \<times> error option" where
  "QueryAll c = Query c True_cond"

definition Vacuum :: "Collection \<Rightarrow> error option" where
  "Vacuum c = None"

section \<open>Notions the specification uses\<close>

text \<open>The key as the specification pads it: with spaces on the left, to 4 bytes.\<close>

definition space_padded :: "string \<Rightarrow> string" where
  "space_padded s = replicate (4 - length s) (CHR '' '') @ s"

text \<open>A key all of whose bytes are ASCII, as the decimal record keys are.\<close>

definition is_ascii :: "string \<Rightarrow> bool" where
  "is_ascii s = list_all (\<lambda>c. (of_char c :: nat) < 0x80) s"

text \<open>
  The entries of a log that are not flagged as deleted, in file order, and the
  (fieldValue, identifier) mapping of an entry.
\<close>

definition live_entries :: "(nat \<times> indexEntry) list \<Rightarrow> indexEntry list" where
  "live_entries recs = filter (\<lambda>entry. \<not> deleted entry) (map snd recs)"

definition mapping_of :: "indexEntry \<Rightarrow> string \<times> Id" where
  "mapping_of entry = (fieldValue entry, ident entry)"

text \<open>
  The table that a log replays to when it ends cleanly, under the field that
  \<^verbatim>\<open>loadIndexes\<close> gives it, and the visits of a walk that load a table: those of a regular
  file that can be opened and whose log ends cleanly.
\<close>

definition table_of :: "string \<Rightarrow> logfile \<Rightarrow> index" where
  "table_of p file =
     \<lparr>idx_file = p, idx_field = Base p,
      idx_data = set (map mapping_of (live_entries (lf_records file)))\<rparr>"

definition loadable :: "World \<Rightarrow> visit \<Rightarrow> bool" where
  "loadable w u =
     (case v_info u of
        None \<Rightarrow> False
      | Some mode \<Rightarrow>
          mode AND ModeType = 0 \<and>
          (case fs w (v_path u) of None \<Rightarrow> False | Some file \<Rightarrow> lf_end file = EOF))"

text \<open>
  The line that \<^verbatim>\<open>loadIndexes\<close> logs for an index file that cannot be loaded.
\<close>

definition load_failed :: "string \<Rightarrow> error \<Rightarrow> string" where
  "load_failed p err = ''loadIndex '' @ p @ '' failed: '' @ Error err"

text \<open>
  A store on which no operation to come fails, a collection whose store is such and whose
  persisted counter holds \<open>n\<close>, and successive calls of \<^verbatim>\<open>Insert\<close>, each on the
  collection the call before has left, with the pair (identifier, error) of every call.
\<close>

definition no_faults :: "Diskv \<Rightarrow> bool" where
  "no_faults d = list_all (\<lambda>f. \<not> f) (faults d)"

definition allocator_at :: "Collection \<Rightarrow> Id \<Rightarrow> bool" where
  "allocator_at c n \<longleftrightarrow> no_faults (store c) \<and> files (store c) ''_next_id'' = Some (PutVarint n)"

fun Inserts :: "('v \<Rightarrow> error + bytes) \<Rightarrow> Collection \<Rightarrow> 'v list \<Rightarrow> Collection \<times> (Id \<times> error option) list" where
  "Inserts json_Marshal c [] = (c, [])"
| "Inserts json_Marshal c (val # vals) =
     (let (c1, r) = Insert json_Marshal c val;
          (c2, rs) = Inserts json_Marshal c1 vals
      in (c2, r # rs))"

section \<open>Example states\<close>

text \<open>
  \<^verbatim>\<open>json.Marshal\<close> on two kinds of values: a string without characters that JSON
  escapes, encoded between double quotes, and a channel, which JSON cannot encode.
\<close>

datatype example_value = Text string | Channel

definition example_Marshal :: "example_value \<Rightarrow> error + bytes" where
  "example_Marshal v =
     (case v of
        Text s \<Rightarrow> Inr ([0x22] @ map of_char s @ [0x22])
      | Channel \<Rightarrow> Inl (errorString ''json: unsupported type: chan int''))"

text \<open>
  A collection with the records \<^verbatim>\<open>{1: "a", 2: "b"}\<close> and no index, a collection with the
  record \<^verbatim>\<open>{1: {"color":"red"}}\<close> and no index, and collections whose persisted counter is
  5 and 1, with the outcomes of their next store operations: \<open>opened_things\<close> and
  \<open>flaky_things\<close> are a collection just opened on an empty store, the second with a store
  whose second operation to come fails.
\<close>

definition coll_ab :: Collection where
  "coll_ab =
     \<lparr>store = \<lparr>files = [''_next_id'' \<mapsto> PutVarint 3,
                         ''1'' \<mapsto> [0x22, 0x61, 0x22],
                         ''2'' \<mapsto> [0x22, 0x62, 0x22]],
               faults = []\<rparr>,
      indexpath = ''db/indexes/letters'',
      indexes = Map.empty\<rparr>"

definition coll_red :: Collection where
  "coll_red =
     \<lparr>store = \<lparr>files = [''_next_id'' \<mapsto> PutVarint 2,
                         ''1'' \<mapsto> [0x7B, 0x22, 0x63, 0x6F, 0x6C, 0x6F, 0x72, 0x22, 0x3A,
                                     0x22, 0x72, 0x65, 0x64, 0x22, 0x7D]],
               faults = []\<rparr>,
      indexpath = ''db/indexes/things'',
      indexes = Map.empty\<rparr>"

definition coll5 :: "bool list \<Rightarrow> Collection" where
  "coll5 fl =
     \<lparr>store = \<lparr>files = [''_next_id'' \<mapsto> PutVarint 5], faults = fl\<rparr>,
      indexpath = ''db/indexes/things'',
      indexes = Map.empty\<rparr>"

definition opened_things :: Collection where
  "opened_things =
     \<lparr>store = \<lparr>files = [''_next_id'' \<mapsto> PutVarint 1], faults = []\<rparr>,
      indexpath = ''db/indexes/things'',
      indexes = Map.empty\<rparr>"

definition flaky_things :: Collection where
  "flaky_things =
     \<lparr>store = \<lparr>files = [''_next_id'' \<mapsto> PutVarint 1], faults = [False, True, False]\<rparr>,
      indexpath = ''db/indexes/things'',
      indexes = Map.empty\<rparr>"

text \<open>
  Four index logs: a single live entry; three live entries; a live entry followed by a
  tombstone for the same mapping; a file whose second record is cut short.
\<close>

definition entry :: "bool \<Rightarrow> string \<Rightarrow> Id \<Rightarrow> indexEntry" where
  "entry d v i = \<lparr>deleted = d, fieldValue = v, ident = i, fpos = 0\<rparr>"

definition single_log :: logfile where
  "single_log = \<lparr>lf_records = [(13, entry False ''red'' 1)], lf_end = EOF\<rparr>"

definition color_log :: logfile where
  "color_log =
     \<lparr>lf_records = [(13, entry False ''red'' 1), (14, entry False ''blue'' 2),
                    (13, entry False ''red'' 3)],
      lf_end = EOF\<rparr>"

definition tombstone_log :: logfile where
  "tombstone_log =
     \<lparr>lf_records = [(13, entry False ''red'' 1), (13, entry True ''red'' 1)],
      lf_end = EOF\<rparr>"

definition corrupt_log :: logfile where
  "corrupt_log =
     \<lparr>lf_records = [(15, entry False ''round'' 1)],
      lf_end = errorString ''unexpected EOF''\<rparr>"

text \<open>
  A world in which the index directory of the collection \<^verbatim>\<open>things\<close> holds these
  three logs (the directory has mode \<^verbatim>\<open>drwxr-xr-x\<close>, the files \<^verbatim>\<open>-rw-r--r--\<close>) and
  the log of \<^verbatim>\<open>color\<close> cannot be removed; the collection before its indexes are loaded,
  with the table of \<^verbatim>\<open>color\<close> alone, and with the tables that loading its indexes gives
  it; a world with an empty store and an empty index directory.
\<close>

definition things_world :: World where
  "things_world =
     \<lparr>stores = (\<lambda>base. \<lparr>files = Map.empty, faults = []\<rparr>),
      walks = (\<lambda>root.
        if root = ''db/indexes/things''
        then [\<lparr>v_path = ''db/indexes/things'', v_info = Some 0x800001ED\<rparr>,
              \<lparr>v_path = ''db/indexes/things/color'', v_info = Some 0x1A4\<rparr>,
              \<lparr>v_path = ''db/indexes/things/shape'', v_info = Some 0x1A4\<rparr>,
              \<lparr>v_path = ''db/indexes/things/size'', v_info = Some 0x1A4\<rparr>]
        else [\<lparr>v_path = root, v_info = None\<rparr>]),
      fs = [''db/indexes/things/color'' \<mapsto> color_log,
            ''db/indexes/things/shape'' \<mapsto> corrupt_log,
            ''db/indexes/things/size'' \<mapsto> tombstone_log],
      remove_fails = (\<lambda>name. name = ''db/indexes/things/color'')\<rparr>"

definition things :: Collection where
  "things =
     \<lparr>store = \<lparr>files = Map.empty, faults = []\<rparr>,
      indexpath = ''db/indexes/things'',
      indexes = Map.empty\<rparr>"

definition things_loaded :: Collection where
  "things_loaded = things\<lparr>indexes := [''color'' \<mapsto>
      \<lparr>idx_file = ''db/indexes/things/color'', idx_field = ''color'',
       idx_data = {(''red'', 1), (''blue'', 2), (''red'', 3)}\<rparr>]\<rparr>"

definition things_indexed :: Collection where
  "things_indexed = things\<lparr>indexes := [''color'' \<mapsto>
       \<lparr>idx_file = ''db/indexes/things/color'', idx_field = ''color'',
        idx_data = {(''red'', 1), (''blue'', 2), (''red'', 3)}\<rparr>,
     ''size'' \<mapsto>
       \<lparr>idx_file = ''db/indexes/things/size'', idx_field = ''size'',
        idx_data = {(''red'', 1)}\<rparr>]\<rparr>"

definition shape_visit :: visit where
  "shape_visit = \<lparr>v_path = ''db/indexes/things/shape'', v_info = Some 0x1A4\<rparr>"

text \<open>
  A world in which the index directory of \<^verbatim>\<open>things\<close> holds a well-formed log
  \<^verbatim>\<open>color\<close> and a subdirectory \<^verbatim>\<open>old\<close> with a log \<^verbatim>\<open>color\<close> that is cut short.
\<close>

definition nested_world :: World where
  "nested_world =
     \<lparr>stores = (\<lambda>base. \<lparr>files = Map.empty, faults = []\<rparr>),
      walks = (\<lambda>root.
        if root = ''db/indexes/things''
        then [\<lparr>v_path = ''db/indexes/things'', v_info = Some 0x800001ED\<rparr>,
              \<lparr>v_path = ''db/indexes/things/color'', v_info = Some 0x1A4\<rparr>,
              \<lparr>v_path = ''db/indexes/things/old'', v_info = Some 0x800001ED\<rparr>,
              \<lparr>v_path = ''db/indexes/things/old/color'', v_info = Some 0x1A4\<rparr>]
        else [\<lparr>v_path = root, v_info = None\<rparr>]),
      fs = [''db/indexes/things/color'' \<mapsto> color_log,
            ''db/indexes/things/old/color'' \<mapsto> corrupt_log],
      remove_fails = (\<lambda>name. False)\<rparr>"

definition fresh_world :: "bool list \<Rightarrow> World" where
  "fresh_world fl =
     \<lparr>stores = (\<lambda>base. \<lparr>files = Map.empty, faults = fl\<rparr>),
      walks = (\<lambda>root. [\<lparr>v_path = root, v_info = Some 0x800001ED\<rparr>]),
      fs = Map.empty,
      remove_fails = (\<lambda>name. False)\<rparr>"

section \<open>Properties of the KeySharder\<close>

lemma rune_count_le: "rune_count bs \<le> length bs"
proof (induction bs rule: rune_count.induct)
  case 1
  show ?case by simp
next
  case (2 c cs)
  have "rune_count (drop (rune_size c cs - 1) cs) \<le> length cs"
    using "2.IH" by (simp add: le_diff_conv2 trans_le_add1)
  then show ?case by simp
qed

lemma rune_count_ascii:
  "list_all (\<lambda>b. b < 0x80) bs \<Longrightarrow> rune_count bs = length bs"
  by (induction bs) (simp_all add: rune_size_def)

lemma RuneCountInString_le: "RuneCountInString s \<le> length s"
  using rune_count_le [of "map of_char s"] by (simp add: RuneCountInString_def)

lemma RuneCountInString_ascii: "is_ascii s \<Longrightarrow> RuneCountInString s = length s"
  using rune_count_ascii [of "map of_char s"]
  by (simp add: RuneCountInString_def is_ascii_def list_all_iff)

lemma transform_data_length: "4 \<le> length (transform_data s)"
  using RuneCountInString_le [of s] by (auto simp: transform_data_def Sprintf_04s_def)

text \<open>
  Claim C6. For the reserved metadata key \<^verbatim>\<open>"_next_id"\<close> the sharder returns the empty
  sequence of path segments; for every other key of at least 4 bytes it returns exactly two
  segments of 2 bytes each, taken from the last 4 bytes of the key, the tail pair first:
  \<^verbatim>\<open>[last4[2:4], last4[0:2]]\<close>.
\<close>

theorem C6_shard_long_keys:
  "transformFunc ''_next_id'' = [] \<and>
   (s \<noteq> ''_next_id'' \<and> 4 \<le> length s \<longrightarrow>
      (let last4 = drop (length s - 4) s in
         length last4 = 4 \<and>
         transformFunc s = [take 2 (drop 2 last4), take 2 last4] \<and>
         list_all (\<lambda>seg. length seg = 2) (transformFunc s)))"
  by (auto simp: transformFunc_def transform_data_def Let_def)

theorem C6_shard_long_keys_witness:
  "transformFunc ''_next_id'' = [] \<and> ''12345'' \<noteq> ''_next_id'' \<and> 4 \<le> length ''12345'' \<and>
   transformFunc ''12345'' = [''45'', ''23'']"
  using C6_shard_long_keys [of "''12345''"] by (simp add: Let_def)

text \<open>
  Claim C7, as the specification states it, pads a short key with spaces. The source pads with
  \<^verbatim>\<open>%04s\<close>, whose \<^verbatim>\<open>0\<close> flag pads with the digit zero: the key \<^verbatim>\<open>"ab"\<close> is sharded
  as \<^verbatim>\<open>"00ab"\<close>, not as \<^verbatim>\<open>"  ab"\<close>.
\<close>

theorem C7_space_padding_counterexample:
  "transformFunc ''ab'' = [''ab'', ''00''] \<and>
   transformFunc ''ab'' \<noteq> [take 2 (drop 2 (space_padded ''ab'')), take 2 (space_padded ''ab'')]"
  by (simp add: transformFunc_def transform_data_def Sprintf_04s_def RuneCountInString_def
      rune_size_def space_padded_def eval_nat_numeral)

text \<open>
  Claim C7, amended. For every key shorter than 4 bytes (none of them is the metadata key), the
  sharder derives its two segments from the key padded on the left with the character
  \<^verbatim>\<open>'0'\<close> up to a width of 4 runes: the segments are bytes \<open>[2:4)\<close> and \<open>[0:2)\<close> of the
  padded string. For an ASCII key, such as the decimal record keys, the width is the length, so
  the key is padded to exactly 4 bytes.
\<close>

theorem C7_shard_short_keys:
  "length s < 4 \<longrightarrow>
     (let padded = replicate (4 - RuneCountInString s) (CHR ''0'') @ s in
        transformFunc s = [take 2 (drop 2 padded), take 2 padded] \<and>
        4 \<le> length padded \<and>
        (is_ascii s \<longrightarrow> padded = replicate (4 - length s) (CHR ''0'') @ s \<and> length padded = 4))"
proof (intro impI)
  assume short: "length s < 4"
  then have "s \<noteq> ''_next_id''" by auto
  moreover have "RuneCountInString s \<le> length s" by (rule RuneCountInString_le)
  ultimately show "let padded = replicate (4 - RuneCountInString s) (CHR ''0'') @ s in
        transformFunc s = [take 2 (drop 2 padded), take 2 padded] \<and>
        4 \<le> length padded \<and>
        (is_ascii s \<longrightarrow> padded = replicate (4 - length s) (CHR ''0'') @ s \<and> length padded = 4)"
    using short
    by (auto simp: transformFunc_def transform_data_def Sprintf_04s_def Let_def
        RuneCountInString_ascii)
qed

theorem C7_shard_short_keys_witness:
  "length ''7'' < 4 \<and> is_ascii ''7'' \<and> transformFunc ''7'' = [''07'', ''00'']"
  using C7_shard_short_keys [of "''7''"]
  by (simp add: Let_def is_ascii_def RuneCountInString_def rune_size_def eval_nat_numeral)

section \<open>The varint encoding round-trips\<close>

lemma neg_iff_top_bit: "sint (x::64 word) < 0 \<longleftrightarrow> bit x 63"
  using bit_last_iff [of x] by simp

lemma bit_shl1: "bit (push_bit 1 (x::64 word)) m \<longleftrightarrow> 0 < m \<and> m < 64 \<and> bit x (m - 1)"
  by (simp only: bit_push_bit_iff possible_bit_word) auto

lemma zigzag_neg: "bit (x::64 word) 63 \<Longrightarrow> NOT (drop_bit 1 (NOT (push_bit 1 x))) = x"
proof (rule bit_word_eqI)
  fix n assume n: "n < LENGTH(64)" and top: "bit x 63"
  have "bit (NOT (drop_bit 1 (NOT (push_bit 1 x)))) n \<longleftrightarrow> \<not> (Suc n < 64 \<and> \<not> bit x n)"
    using n by (simp only: bit_not_iff bit_drop_bit_eq o_apply bit_shl1 possible_bit_word) auto
  then show "bit (NOT (drop_bit 1 (NOT (push_bit 1 x)))) n = bit x n"
    using n top by (cases "n = 63") auto
qed

lemma zigzag_pos: "\<not> bit (x::64 word) 63 \<Longrightarrow> drop_bit 1 (push_bit 1 x) = x"
proof (rule bit_word_eqI)
  fix n assume n: "n < LENGTH(64)" and top: "\<not> bit x 63"
  have "bit (drop_bit 1 (push_bit 1 x)) n \<longleftrightarrow> Suc n < 64 \<and> bit x n"
    by (simp only: bit_drop_bit_eq o_apply bit_shl1) auto
  then show "bit (drop_bit 1 (push_bit 1 x)) n = bit x n"
    using n top by (cases "n = 63") auto
qed

lemma and_1_bit: "(w::64 word) AND 1 = 0 \<longleftrightarrow> \<not> bit w 0"
  by (simp add: and_one_eq bit_0 even_iff_mod_2_eq_zero)

lemma zig_low_neg: "NOT (push_bit 1 (x::64 word)) AND 1 \<noteq> 0"
  by (simp only: and_1_bit bit_not_iff bit_shl1 possible_bit_word) simp

lemma zig_low_pos: "push_bit 1 (x::64 word) AND 1 = 0"
  by (simp only: and_1_bit bit_shl1) simp

lemma bit_0x80: "bit (0x80::'a::len word) n \<longleftrightarrow> n = 7 \<and> n < LENGTH('a)"
proof -
  have "(0x80::'a word) = 2 ^ 7" by simp
  then show ?thesis by (simp only: bit_exp_iff possible_bit_word) auto
qed

lemma bit_0x7f: "bit (0x7f::'a::len word) n \<longleftrightarrow> n < 7 \<and> n < LENGTH('a)"
proof -
  have "(0x7f::'a word) = mask 7" by (simp add: mask_eq_exp_minus_1)
  then show ?thesis by (simp only: bit_mask_iff possible_bit_word) auto
qed

lemma low7: "(ucast ((ucast (u::64 word) OR 0x80 :: byte) AND 0x7f) :: 64 word) = take_bit 7 u"
  apply (rule bit_word_eqI)
  apply (simp only: bit_ucast_iff bit_and_iff bit_or_iff bit_0x80 bit_0x7f bit_take_bit_iff)
  apply auto
  done

lemma split7:
  "push_bit s (take_bit 7 (u::64 word)) OR push_bit (s + 7) (drop_bit 7 u) = push_bit s u"
proof (rule bit_word_eqI)
  fix n assume "n < LENGTH(64)"
  have *: "7 + (n - (s + 7)) = n - s" if "7 \<le> n - s" using that by arith
  show "bit (push_bit s (take_bit 7 u) OR push_bit (s + 7) (drop_bit 7 u)) n = bit (push_bit s u) n"
    using * by (cases "n - s < 7") (auto simp: bit_simps)
qed

lemma hi_byte: "\<not> ((w OR 0x80 :: byte) < 0x80)"
  using le_word_or1 [of "0x80" w] by (simp add: not_less)

lemma ucast_small: "(u::64 word) < 0x80 \<Longrightarrow> (ucast (ucast u :: byte) :: 64 word) = u"
proof -
  assume "u < 0x80"
  then have "unat u < 128" by (simp add: word_less_nat_alt)
  then have "unat (ucast (ucast u :: byte) :: 64 word) = unat u"
    by (simp add: unsigned_ucast_eq take_bit_eq_mod unat_mod_distrib unat_mod)
  then show ?thesis by (simp only: word_unat_eq_iff)
qed

lemma small_byte: "(u::64 word) < 0x80 \<Longrightarrow> (ucast u :: byte) < 0x80"
  by (simp add: word_less_nat_alt unsigned_ucast_eq take_bit_eq_mod)

lemma Uvarint_loop_PutUvarint:
  "i \<le> 9 \<Longrightarrow> unat u < 2 ^ (64 - 7 * i) \<Longrightarrow>
   Uvarint_loop acc (7 * i) i (PutUvarint u) =
     (acc OR push_bit (7 * i) u, int i + int (length (PutUvarint u)))"
proof (induction u arbitrary: acc i rule: PutUvarint.induct)
  case (1 x)
  show ?case
  proof (cases "0x80 \<le> x")
    case True
    then have big: "128 \<le> unat x" by (simp add: word_le_nat_alt)
    have i8: "i \<le> 8"
    proof (rule ccontr)
      assume "\<not> i \<le> 8"
      with "1.prems" have "i = 9" by simp
      with "1.prems" big show False by simp
    qed
    have "unat (drop_bit 7 x) = unat x div 2 ^ 7"
      by (simp add: drop_bit_eq_div unat_div)
    moreover have "64 - 7 * i = 7 + (64 - 7 * Suc i)"
      using i8 by simp
    then have "(2::nat) ^ (64 - 7 * i) = 2 ^ 7 * 2 ^ (64 - 7 * Suc i)"
      by (simp only: power_add)
    ultimately have bound: "unat (drop_bit 7 x) < 2 ^ (64 - 7 * Suc i)"
      using "1.prems"(2) by (simp add: less_mult_imp_div_less mult.commute)
    have e: "7 * Suc i = 7 * i + 7" by simp
    have IH: "Uvarint_loop acc' (7 * i + 7) (Suc i) (PutUvarint (drop_bit 7 x)) =
       (acc' OR push_bit (7 * i + 7) (drop_bit 7 x),
        int (Suc i) + int (length (PutUvarint (drop_bit 7 x))))" for acc'
      using "1.IH" [OF True, of "Suc i" acc'] i8 bound by (simp only: e)
    have step: "PutUvarint x = (ucast x OR 0x80) # PutUvarint (drop_bit 7 x)"
      using True by (subst PutUvarint.simps) simp
    have "Uvarint_loop acc (7 * i) i (PutUvarint x)
        = Uvarint_loop (acc OR push_bit (7 * i) (take_bit 7 x)) (7 * i + 7) (Suc i)
            (PutUvarint (drop_bit 7 x))"
      using i8 by (simp only: step Uvarint_loop.simps hi_byte low7 MaxVarintLen64_def) simp
    also have "\<dots> = ((acc OR push_bit (7 * i) (take_bit 7 x)) OR push_bit (7 * i + 7) (drop_bit 7 x),
        int (Suc i) + int (length (PutUvarint (drop_bit 7 x))))"
      by (simp only: IH)
    also have "\<dots> = (acc OR push_bit (7 * i) x, int i + int (length (PutUvarint x)))"
      by (simp only: or.assoc split7 step) simp
    finally show ?thesis .
  next
    case False
    then have small: "x < 0x80" by simp
    have one: "PutUvarint x = [ucast x]"
      using False by (subst PutUvarint.simps) simp
    have last: "\<not> (i = 9 \<and> 1 < (ucast x :: byte))"
    proof
      assume a: "i = 9 \<and> 1 < (ucast x :: byte)"
      with "1.prems" have "unat x < 2" by simp
      then have "unat (ucast x :: byte) \<le> 1" by (simp add: unsigned_ucast_eq take_bit_eq_mod)
      with a show False by (simp add: word_less_nat_alt)
    qed
    show ?thesis
      using "1.prems"(1) last small_byte [OF small] ucast_small [OF small]
      by (simp add: one MaxVarintLen64_def)
  qed
qed

lemma Uvarint_PutUvarint: "Uvarint (PutUvarint u) = (u, int (length (PutUvarint u)))"
  using Uvarint_loop_PutUvarint [of 0 u 0] unsigned_less [of u, where ?'a = nat]
  by (simp add: Uvarint_def)

lemma Varint_PutVarint: "Varint (PutVarint x) = (x, int (length (PutVarint x)))"
proof (cases "sint x < 0")
  case True
  then show ?thesis
    using zigzag_neg [of x] zig_low_neg [of x]
    by (simp only: Varint_def PutVarint_def Uvarint_PutUvarint Let_def neg_iff_top_bit if_True
        split_conv) simp
next
  case False
  then show ?thesis
    using zigzag_pos [of x] zig_low_pos [of x]
    by (simp only: Varint_def PutVarint_def Uvarint_PutUvarint Let_def neg_iff_top_bit if_False
        split_conv) simp
qed

lemma PutUvarint_length: "unat u < 2 ^ (7 * n) \<Longrightarrow> 0 < n \<Longrightarrow> length (PutUvarint u) \<le> n"
proof (induction u arbitrary: n rule: PutUvarint.induct)
  case (1 x)
  show ?case
  proof (cases "0x80 \<le> x")
    case True
    then have big: "128 \<le> unat x" by (simp add: word_le_nat_alt)
    obtain m where n: "n = Suc m" using "1.prems" by (cases n) auto
    have "m \<noteq> 0" using big "1.prems" n by (cases m) auto
    moreover have "unat (drop_bit 7 x) < 2 ^ (7 * m)"
      using "1.prems"(1) n
      by (simp add: drop_bit_eq_div unat_div less_mult_imp_div_less mult.commute power_add)
    ultimately have "length (PutUvarint (drop_bit 7 x)) \<le> m"
      using "1.IH" [OF True, of m] by simp
    then show ?thesis using True n by (subst PutUvarint.simps) simp
  next
    case False
    then show ?thesis using "1.prems" by (subst PutUvarint.simps) simp
  qed
qed

lemma PutVarint_length: "length (PutVarint x) \<le> MaxVarintLen64"
proof -
  have "unat u < 2 ^ (7 * 10)" for u :: "64 word"
    using unsigned_less [of u, where ?'a = nat] by (simp add: order_less_trans)
  then show ?thesis
    by (simp add: PutVarint_def Let_def MaxVarintLen64_def PutUvarint_length)
qed

section \<open>Record keys never collide with the metadata key\<close>

lemma decimal_last: "decimal n \<noteq> [] \<and> last (decimal n) = digit_char (n mod 10)"
  by (subst (1 2) decimal.simps) simp

lemma digit_char_not_d: "digit_char (n mod 10) \<noteq> CHR ''d''"
proof -
  have "n mod 10 < 10" by simp
  then have "48 + n mod 10 < 256" by linarith
  then have "take_bit 8 (48 + n mod 10) = 48 + n mod 10"
    by (simp add: take_bit_nat_eq_self_iff)
  then show ?thesis
    by (simp add: digit_char_def char_of_eq_iff)
qed

lemma Sprintf_d_not_metadata: "Sprintf_d x \<noteq> ''_next_id''"
proof
  assume a: "Sprintf_d x = ''_next_id''"
  have "last (Sprintf_d x) = digit_char (nat \<bar>sint x\<bar> mod 10)"
    using decimal_last [of "nat (- sint x)"] decimal_last [of "nat (sint x)"]
    by (auto simp: Sprintf_d_def abs_if)
  with a show False using digit_char_not_d [of "nat \<bar>sint x\<bar>"] by simp
qed

section \<open>The store when no operation fails\<close>

lemma next_fault_no_faults:
  "no_faults d \<Longrightarrow> fst (next_fault d) = False \<and> files (snd (next_fault d)) = files d \<and>
     no_faults (snd (next_fault d))"
  by (cases "faults d") (auto simp: next_fault_def no_faults_def)

lemma Write_no_faults:
  "no_faults d \<Longrightarrow> snd (diskv_Write d key val) = None \<and>
     files (fst (diskv_Write d key val)) = (files d)(key \<mapsto> val) \<and>
     no_faults (fst (diskv_Write d key val))"
  using next_fault_no_faults [of d]
  by (auto simp: diskv_Write_def no_faults_def split: prod.splits)

lemma Read_no_faults:
  "no_faults d \<Longrightarrow> files d key = Some val \<Longrightarrow>
     snd (diskv_Read d key) = (val, None) \<and>
     files (fst (diskv_Read d key)) = files d \<and> no_faults (fst (diskv_Read d key))"
  using next_fault_no_faults [of d]
  by (auto simp: diskv_Read_def split: prod.splits)

lemma Read_absent_no_faults:
  "no_faults d \<Longrightarrow> files d key = None \<Longrightarrow>
     snd (diskv_Read d key) = ([], Some (not_found key)) \<and>
     files (fst (diskv_Read d key)) = files d \<and> no_faults (fst (diskv_Read d key))"
  using next_fault_no_faults [of d]
  by (auto simp: diskv_Read_def split: prod.splits)

section \<open>Properties of \<^verbatim>\<open>Insert\<close> and of the allocator\<close>

text \<open>
  Claim C10. For every value that fails serialization, \<^verbatim>\<open>Insert\<close> returns the identifier
  0 and the serialization error without allocating an identifier: the collection it leaves is
  the collection it was given, so the persisted \<^verbatim>\<open>"_next_id"\<close> counter and the stored
  records are unchanged.
\<close>

theorem C10_Insert_marshal_error:
  "json_Marshal val = Inl err \<longrightarrow>
     Insert json_Marshal c val = (c, 0, Some err) \<and>
     files (store (fst (Insert json_Marshal c val))) = files (store c)"
  by (simp add: Insert_def)

text \<open>
  Witness for C10: a channel cannot be encoded, and \<^verbatim>\<open>Insert\<close> leaves the counter at 3.
\<close>

theorem C10_Insert_marshal_error_witness:
  "example_Marshal Channel = Inl (errorString ''json: unsupported type: chan int'') \<and>
   Insert example_Marshal coll_ab Channel =
     (coll_ab, 0, Some (errorString ''json: unsupported type: chan int'')) \<and>
   files (store (fst (Insert example_Marshal coll_ab Channel))) ''_next_id'' = Some (PutVarint 3)"
  using C10_Insert_marshal_error [of example_Marshal Channel
      "errorString ''json: unsupported type: chan int''" coll_ab]
  by (simp add: example_Marshal_def coll_ab_def)

text \<open>
  Claim C4, as the specification states it, has the persisted counter back at the allocated
  identifier after every \<^verbatim>\<open>Insert\<close> whose record write fails. The rollback is itself a
  write to the store, and \<^verbatim>\<open>setNextId\<close> drops its error. With the counter at 5, let the
  read and the write of the counter succeed and the record write and the rollback write both
  fail: \<^verbatim>\<open>Insert\<close> returns 0 with the error, the counter stays at 6 and the next allocation
  returns 6, not 5.
\<close>

theorem C4_rollback_write_fails_counterexample:
  "snd (getNextId (coll5 [False, False, True, True])) = 5 \<and>
   snd (Insert example_Marshal (coll5 [False, False, True, True]) (Text ''x'')) = (0, Some io_error) \<and>
   files (store (fst (Insert example_Marshal (coll5 [False, False, True, True]) (Text ''x'')))) ''_next_id'' =
     Some (PutVarint 6) \<and>
   PutVarint 6 \<noteq> PutVarint 5 \<and>
   snd (getNextId (fst (Insert example_Marshal (coll5 [False, False, True, True]) (Text ''x'')))) = 6"
  by (simp add: Insert_def getNextId_def setNextId_def coll5_def diskv_Read_def diskv_Write_def
      next_fault_def example_Marshal_def Varint_def Uvarint_def PutVarint_def PutUvarint.simps
      MaxVarintLen64_def)

text \<open>
  Claim C4, amended. For every \<^verbatim>\<open>Insert\<close> whose record write fails after an identifier
  was allocated, \<^verbatim>\<open>Insert\<close> writes that identifier back to the persisted counter, dropping
  the result of that write, and returns the error of the record write together with the invalid
  identifier 0. When the rollback write succeeds, the persisted counter holds the allocated
  identifier, and the next allocation that can read the counter returns the same identifier
  again.
\<close>

theorem C4_Insert_rollback:
  "json_Marshal val = Inr jsondata \<and> getNextId c = (c1, new_id) \<and>
   diskv_Write (store c1) (Sprintf_d new_id) jsondata = (s2, Some err) \<longrightarrow>
     Insert json_Marshal c val = (setNextId (c1\<lparr>store := s2\<rparr>) new_id, 0, Some err) \<and>
     (snd (diskv_Write s2 ''_next_id'' (PutVarint new_id)) = None \<longrightarrow>
        files (store (fst (Insert json_Marshal c val))) ''_next_id'' = Some (PutVarint new_id) \<and>
        (snd (snd (diskv_Read (store (fst (Insert json_Marshal c val))) ''_next_id'')) = None \<longrightarrow>
           snd (getNextId (fst (Insert json_Marshal c val))) = new_id))"
proof (intro impI conjI)
  assume a: "json_Marshal val = Inr jsondata \<and> getNextId c = (c1, new_id) \<and>
   diskv_Write (store c1) (Sprintf_d new_id) jsondata = (s2, Some err)"
  then show i: "Insert json_Marshal c val = (setNextId (c1\<lparr>store := s2\<rparr>) new_id, 0, Some err)"
    by (simp add: Insert_def)
  assume w: "snd (diskv_Write s2 ''_next_id'' (PutVarint new_id)) = None"
  then show f: "files (store (fst (Insert json_Marshal c val))) ''_next_id'' = Some (PutVarint new_id)"
    by (auto simp: i setNextId_def diskv_Write_def split: prod.splits if_splits)
  assume r: "snd (snd (diskv_Read (store (fst (Insert json_Marshal c val))) ''_next_id'')) = None"
  let ?d = "store (fst (Insert json_Marshal c val))"
  from r f have "fst (snd (diskv_Read ?d ''_next_id'')) = PutVarint new_id"
    by (auto simp: diskv_Read_def next_fault_def split: prod.splits if_splits list.splits option.splits)
  then show "snd (getNextId (fst (Insert json_Marshal c val))) = new_id"
    by (simp add: getNextId_def split_def Varint_PutVarint)
qed

text \<open>
  Witness for C4: the counter is 5, the record write fails and the rollback write succeeds.
\<close>

theorem C4_Insert_rollback_witness:
  "example_Marshal (Text ''x'') = Inr [0x22, 0x78, 0x22] \<and>
   snd (getNextId (coll5 [False, False, True])) = 5 \<and>
   snd (Insert example_Marshal (coll5 [False, False, True]) (Text ''x'')) = (0, Some io_error) \<and>
   files (store (fst (Insert example_Marshal (coll5 [False, False, True]) (Text ''x'')))) ''_next_id'' =
     Some (PutVarint 5) \<and>
   files (store (fst (Insert example_Marshal (coll5 [False, False, True]) (Text ''x'')))) ''5'' = None \<and>
   snd (getNextId (fst (Insert example_Marshal (coll5 [False, False, True]) (Text ''x'')))) = 5"
proof -
  let ?c1 = "\<lparr>store = \<lparr>files = [''_next_id'' \<mapsto> PutVarint 6], faults = [True]\<rparr>,
      indexpath = ''db/indexes/things'', indexes = Map.empty\<rparr>"
  let ?s2 = "\<lparr>files = [''_next_id'' \<mapsto> PutVarint 6], faults = []\<rparr>"
  let ?c3 = "\<lparr>store = \<lparr>files = [''_next_id'' \<mapsto> PutVarint 5], faults = []\<rparr>,
      indexpath = ''db/indexes/things'', indexes = Map.empty\<rparr>"
  let ?I = "Insert example_Marshal (coll5 [False, False, True]) (Text ''x'')"
  have m: "example_Marshal (Text ''x'') = Inr [0x22, 0x78, 0x22]"
    by (simp add: example_Marshal_def)
  have g: "getNextId (coll5 [False, False, True]) = (?c1, 5)"
    by (simp add: getNextId_def coll5_def diskv_Read_def next_fault_def Varint_PutVarint
        setNextId_def diskv_Write_def)
  have w: "diskv_Write (store ?c1) (Sprintf_d 5) [0x22, 0x78, 0x22] = (?s2, Some io_error)"
    by (simp add: diskv_Write_def next_fault_def)
  have st: "setNextId (?c1\<lparr>store := ?s2\<rparr>) 5 = ?c3"
    by (simp add: setNextId_def diskv_Write_def next_fault_def)
  have rb: "snd (diskv_Write ?s2 ''_next_id'' (PutVarint 5)) = None"
    by (simp add: diskv_Write_def next_fault_def)
  have rd: "snd (snd (diskv_Read (store ?c3) ''_next_id'')) = None"
    by (simp add: diskv_Read_def next_fault_def)
  from m g w have prem: "example_Marshal (Text ''x'') = Inr [0x22, 0x78, 0x22] \<and>
      getNextId (coll5 [False, False, True]) = (?c1, 5) \<and>
      diskv_Write (store ?c1) (Sprintf_d 5) [0x22, 0x78, 0x22] = (?s2, Some io_error)"
    by (intro conjI)
  note T = C4_Insert_rollback [of example_Marshal "Text ''x''" "[0x22, 0x78, 0x22]"
      "coll5 [False, False, True]" ?c1 5 ?s2 io_error, THEN mp, OF prem]
  from T have i: "?I = (?c3, 0, Some io_error)" by (simp only: st)
  then have f: "fst ?I = ?c3" by simp
  from T rb have "snd (snd (diskv_Read (store (fst ?I)) ''_next_id'')) = None \<longrightarrow>
      snd (getNextId (fst ?I)) = 5"
    by blast
  with rd have n: "snd (getNextId (fst ?I)) = 5" by (simp only: f)
  show ?thesis
    using m g n by (simp add: i)
qed

lemma getNextId_at:
  "allocator_at c n \<Longrightarrow>
     snd (getNextId c) = n \<and> allocator_at (fst (getNextId c)) (n + 1) \<and>
     indexes (fst (getNextId c)) = indexes c \<and> indexpath (fst (getNextId c)) = indexpath c"
proof -
  assume a: "allocator_at c n"
  then have nf: "no_faults (store c)" and f: "files (store c) ''_next_id'' = Some (PutVarint n)"
    by (simp_all add: allocator_at_def)
  obtain s data err where r: "diskv_Read (store c) ''_next_id'' = (s, data, err)"
    by (cases "diskv_Read (store c) ''_next_id''") auto
  with Read_no_faults [OF nf f] have d: "data = PutVarint n" "no_faults s"
    by simp_all
  show ?thesis
    using r d Write_no_faults [of s "''_next_id''" "PutVarint (n + 1)"]
    by (simp add: getNextId_def setNextId_def Varint_PutVarint allocator_at_def)
qed

lemma Insert_at:
  "allocator_at c n \<Longrightarrow> json_Marshal val = Inr jsondata \<Longrightarrow>
     snd (Insert json_Marshal c val) = (n, None) \<and>
     allocator_at (fst (Insert json_Marshal c val)) (n + 1)"
proof -
  assume a: "allocator_at c n" and m: "json_Marshal val = Inr jsondata"
  obtain c1 i where g: "getNextId c = (c1, i)" by (cases "getNextId c") auto
  with getNextId_at [OF a] have i: "i = n" and a1: "allocator_at c1 (n + 1)" by simp_all
  from a1 have nf: "no_faults (store c1)"
    and f: "files (store c1) ''_next_id'' = Some (PutVarint (n + 1))"
    by (simp_all add: allocator_at_def)
  obtain s err where w: "diskv_Write (store c1) (Sprintf_d n) jsondata = (s, err)"
    by (cases "diskv_Write (store c1) (Sprintf_d n) jsondata") auto
  with Write_no_faults [OF nf, of "Sprintf_d n" jsondata]
  have "err = None" "files s = (files (store c1))(Sprintf_d n \<mapsto> jsondata)" "no_faults s"
    by simp_all
  then show ?thesis
    using m g i w f Sprintf_d_not_metadata [of n]
    by (auto simp: Insert_def allocator_at_def)
qed

lemma Inserts_at:
  "allocator_at c n \<Longrightarrow> list_all (\<lambda>val. \<not> isl (json_Marshal val)) vals \<Longrightarrow>
     snd (Inserts json_Marshal c vals) = map (\<lambda>k. (n + of_nat k, None)) [0..<length vals]"
proof (induction vals arbitrary: c n)
  case Nil
  show ?case by simp
next
  case (Cons val vals)
  from Cons.prems obtain jsondata where m: "json_Marshal val = Inr jsondata"
    by (cases "json_Marshal val") auto
  obtain c1 r where i: "Insert json_Marshal c val = (c1, r)"
    by (cases "Insert json_Marshal c val") auto
  with Insert_at [of c n json_Marshal val jsondata] Cons.prems(1) m
  have r: "r = (n, None)" and a1: "allocator_at c1 (n + 1)"
    by simp_all
  have "snd (Inserts json_Marshal c1 vals) = map (\<lambda>k. (n + 1 + of_nat k, None)) [0..<length vals]"
    using Cons.IH [OF a1] Cons.prems(2) by simp
  moreover have "[0..<length (val # vals)] = 0 # map Suc [0..<length vals]"
    by (simp add: upt_conv_Cons map_Suc_upt del: upt_Suc)
  ultimately show ?case
    using i r by (simp add: split_def add.assoc o_def add.commute del: upt_Suc)
qed

section \<open>Loading the indexes\<close>

lemma replay_clean:
  "replay pos recs EOF idx =
     Inr (idx\<lparr>idx_data := set (map mapping_of (live_entries recs)) \<union> idx_data idx\<rparr>)"
  by (induction recs arbitrary: pos idx)
     (auto simp: live_entries_def mapping_of_def Add_def Deleted_def)

lemma replay_error: "end \<noteq> EOF \<Longrightarrow> replay pos recs end idx = Inl end"
  by (induction recs arbitrary: pos idx) auto

lemma loadIndex_clean:
  "fs w p = Some file \<Longrightarrow> lf_end file = EOF \<Longrightarrow>
   loadIndex w c p field =
     (c\<lparr>indexes := (indexes c)(field \<mapsto>
          \<lparr>idx_file = p, idx_field = field,
           idx_data = set (map mapping_of (live_entries (lf_records file)))\<rparr>)\<rparr>, None)"
  by (simp add: loadIndex_def os_Open_def replay_clean newIndex_def)

lemma loadIndex_error:
  "fs w p = Some file \<Longrightarrow> lf_end file \<noteq> EOF \<Longrightarrow> loadIndex w c p field = (c, Some (lf_end file))"
  by (simp add: loadIndex_def os_Open_def replay_error)

lemma Walk_append:
  "Walk w (xs @ ys) lc = (case Walk w xs lc of None \<Rightarrow> None | Some lc' \<Rightarrow> Walk w ys lc')"
  by (induction xs arbitrary: lc) (auto split: option.splits)

lemma walkFn_log_irrelevant:
  "map_option snd (walkFn w (l, c) v) = map_option snd (walkFn w (l', c) v)"
  by (auto simp: walkFn_def split: option.splits prod.splits)

lemma Walk_log_irrelevant:
  "map_option snd (Walk w vs (l, c)) = map_option snd (Walk w vs (l', c))"
proof (induction vs arbitrary: l l' c)
  case Nil
  show ?case by simp
next
  case (Cons v vs)
  show ?case
  proof (cases "walkFn w (l, c) v")
    case None
    then have "walkFn w (l', c) v = None"
      using walkFn_log_irrelevant [of w l c v l'] by simp
    with None show ?thesis by simp
  next
    case (Some lc1)
    obtain l1 c1 where lc1: "lc1 = (l1, c1)" by (cases lc1)
    from Some lc1 obtain l2 where "walkFn w (l', c) v = Some (l2, c1)"
      using walkFn_log_irrelevant [of w l c v l'] by (cases "walkFn w (l', c) v") auto
    with Some lc1 show ?thesis using Cons.IH [of l1 c1 l2] by simp
  qed
qed

lemma walkFn_bad:
  "fs w (v_path v) = Some file \<Longrightarrow> lf_end file \<noteq> EOF \<Longrightarrow> v_info v = Some mode \<Longrightarrow>
   mode AND ModeType = 0 \<Longrightarrow>
   walkFn w (lg, c) v = Some (lg @ [load_failed (v_path v) (lf_end file)], c)"
  by (simp add: walkFn_def loadIndex_error load_failed_def)

lemma walkFn_store:
  "walkFn w (l, c) v = Some (l', c') \<Longrightarrow> store c' = store c \<and> indexpath c' = indexpath c"
  by (auto simp: walkFn_def loadIndex_def split: option.splits if_splits sum.splits prod.splits)

lemma Walk_store:
  "Walk w vs (l, c) = Some (l', c') \<Longrightarrow> store c' = store c \<and> indexpath c' = indexpath c"
proof (induction vs arbitrary: l c)
  case Nil
  then show ?case by simp
next
  case (Cons v vs)
  then obtain l1 c1 where s: "walkFn w (l, c) v = Some (l1, c1)" and r: "Walk w vs (l1, c1) = Some (l', c')"
    by (cases "walkFn w (l, c) v") auto
  show ?case using walkFn_store [OF s] Cons.IH [OF r] by simp
qed

lemma walkFn_loadable:
  "loadable w u \<Longrightarrow> fs w (v_path u) = Some gf \<Longrightarrow>
   walkFn w (l, c) u =
     Some (l, c\<lparr>indexes := (indexes c)(Base (v_path u) \<mapsto> table_of (v_path u) gf)\<rparr>)"
  by (auto simp: loadable_def walkFn_def loadIndex_clean table_of_def split: option.splits)

lemma walkFn_not_loadable:
  "\<not> loadable w u \<Longrightarrow> walkFn w (l, c) u = Some (l', c') \<Longrightarrow> c' = c"
  by (auto simp: loadable_def walkFn_def loadIndex_def os_Open_def replay_error
      split: option.splits if_splits)

lemma walkFn_keeps:
  "walkFn w (l, c) u = Some (l', c') \<Longrightarrow> (loadable w u \<longrightarrow> Base (v_path u) \<noteq> field) \<Longrightarrow>
   indexes c' field = indexes c field"
proof (cases "loadable w u")
  case True
  assume s: "walkFn w (l, c) u = Some (l', c')" and d: "loadable w u \<longrightarrow> Base (v_path u) \<noteq> field"
  from True obtain gf where "fs w (v_path u) = Some gf"
    by (auto simp: loadable_def split: option.splits)
  with True s d show ?thesis using walkFn_loadable [of w u gf l c] by auto
next
  case False
  assume "walkFn w (l, c) u = Some (l', c')"
  with False show ?thesis using walkFn_not_loadable [of w u l c l' c'] by simp
qed

lemma Walk_keeps:
  "Walk w vs (l, c) = Some (l', c') \<Longrightarrow>
   \<forall>u \<in> set vs. loadable w u \<longrightarrow> Base (v_path u) \<noteq> field \<Longrightarrow>
   indexes c' field = indexes c field"
proof (induction vs arbitrary: l c)
  case Nil
  then show ?case by simp
next
  case (Cons u vs)
  then obtain l1 c1 where s: "walkFn w (l, c) u = Some (l1, c1)"
    and r: "Walk w vs (l1, c1) = Some (l', c')"
    by (cases "walkFn w (l, c) u") auto
  have "indexes c1 field = indexes c field"
    using walkFn_keeps [OF s, of field] Cons.prems(2) by simp
  moreover have "indexes c' field = indexes c1 field"
    using Cons.IH [OF r] Cons.prems(2) by simp
  ultimately show ?case by simp
qed

lemma Walk_loads:
  assumes wk: "Walk w (xs @ g # ys) (l, c) = Some (l', c')"
    and g: "loadable w g" and gf: "fs w (v_path g) = Some gf"
    and later: "\<forall>u \<in> set ys. loadable w u \<longrightarrow> Base (v_path u) \<noteq> Base (v_path g)"
  shows "indexes c' (Base (v_path g)) = Some (table_of (v_path g) gf)"
proof -
  from wk obtain l1 c1 where x: "Walk w xs (l, c) = Some (l1, c1)"
    and r: "Walk w (g # ys) (l1, c1) = Some (l', c')"
    by (cases "Walk w xs (l, c)") (auto simp: Walk_append)
  let ?c2 = "c1\<lparr>indexes := (indexes c1)(Base (v_path g) \<mapsto> table_of (v_path g) gf)\<rparr>"
  from r have "Walk w ys (l1, ?c2) = Some (l', c')"
    by (simp add: walkFn_loadable [OF g gf])
  then have "indexes c' (Base (v_path g)) = indexes ?c2 (Base (v_path g))"
    using later by (rule Walk_keeps)
  then show ?thesis by simp
qed

lemma Walk_total:
  "\<forall>u \<in> set vs. v_info u \<noteq> None \<Longrightarrow> Walk w vs lc \<noteq> None"
proof (induction vs arbitrary: lc)
  case Nil
  show ?case by simp
next
  case (Cons u vs)
  then obtain mode where i: "v_info u = Some mode" by auto
  obtain c1 r where "loadIndex w (snd lc) (v_path u) (Base (v_path u)) = (c1, r)"
    by (cases "loadIndex w (snd lc) (v_path u) (Base (v_path u))")
  then have "walkFn w lc u \<noteq> None"
    using i by (cases r) (simp_all add: walkFn_def)
  then obtain lc' where "walkFn w lc u = Some lc'" by auto
  then show ?case using Cons by simp
qed



section \<open>Opening a collection\<close>

lemma openColl_fresh:
  assumes absent: "files (stores w (path db @ ''/colls/'' @ name)) ''_next_id'' = None"
    and nf: "no_faults (stores w (path db @ ''/colls/'' @ name))"
    and op: "openColl db w name = Some (lg, c)"
  shows "allocator_at c 1"
proof -
  let ?d = "stores w (path db @ ''/colls/'' @ name)"
  let ?coll = "\<lparr>store = ?d, indexpath = path db @ ''/indexes/'' @ name, indexes = Map.empty\<rparr>"
  from op obtain lg1 c1 where l: "loadIndexes w ([], ?coll) = Some (lg1, c1)"
    by (cases "loadIndexes w ([], ?coll)") (auto simp: openColl_def)
  then have st: "store c1 = ?d"
    using Walk_store [of w _ "[]" ?coll lg1 c1] by (simp add: loadIndexes_def)
  obtain s data err where r: "diskv_Read ?d ''_next_id'' = (s, data, err)"
    by (cases "diskv_Read ?d ''_next_id''") auto
  with Read_absent_no_faults [OF nf absent]
  have e: "err = Some (not_found ''_next_id'')" and s: "no_faults s" by simp_all
  from op l st r e have c: "c = setNextId (c1\<lparr>store := s\<rparr>) 1"
    by (simp add: openColl_def)
  show ?thesis
    using Write_no_faults [OF s, of "''_next_id''" "PutVarint 1"]
    by (simp add: c setNextId_def allocator_at_def)
qed

lemma sint_of_nat_small: "k < 2 ^ 63 \<Longrightarrow> sint (of_nat k :: 64 word) = int k"
proof -
  assume "k < 2 ^ 63"
  then have "int k < 2 ^ 63" by (metis of_nat_less_iff of_nat_numeral of_nat_power)
  then have "signed_take_bit 63 (int k) = int k"
    by (simp add: signed_take_bit_int_eq_self)
  then show ?thesis by (simp add: signed_of_nat)
qed

text \<open>
  Claim C5, as the specification states it, holds for every run of successful \<^verbatim>\<open>Insert\<close>
  calls without rollback. \<^verbatim>\<open>getNextId\<close> drops the error of the write that advances the
  counter. Open a collection on an empty store; in the first \<^verbatim>\<open>Insert\<close> let the write of
  the counter fail and the write of the record succeed. Both calls of \<^verbatim>\<open>Insert\<close> succeed,
  neither rolls back, and both return the identifier 1.
\<close>

theorem C5_silent_counter_failure_counterexample:
  "files (stores (fresh_world [False, False, False, True, False]) ''db/colls/things'') ''_next_id'' = None \<and>
   openColl \<lparr>path = ''db''\<rparr> (fresh_world [False, False, False, True, False]) ''things'' =
     Some ([], flaky_things) \<and>
   files (store flaky_things) ''_next_id'' = Some (PutVarint 1) \<and>
   snd (Inserts example_Marshal flaky_things [Text ''a'', Text ''b'']) = [(1, None), (1, None)]"
  by (simp add: openColl_def fresh_world_def loadIndexes_def walkFn_def ModeType_def
      diskv_Read_def next_fault_def setNextId_def diskv_Write_def flaky_things_def
      Insert_def getNextId_def example_Marshal_def Varint_def Uvarint_def PutVarint_def
      PutUvarint.simps MaxVarintLen64_def Sprintf_d_def decimal.simps)

text \<open>
  Claim C5, amended. Opening a collection whose metadata key is absent, on a store none of
  whose operations fails, leaves the persisted counter at 1, and thereafter the k-th of
  successive \<^verbatim>\<open>Insert\<close> calls with encodable values succeeds and returns the identifier k:
  the identifiers start from 1 and each is the one before plus 1 (as signed 64-bit values for
  fewer than \<open>2^63\<close> calls).
\<close>

theorem C5_ids_from_one:
  "files (stores w (path db @ ''/colls/'' @ name)) ''_next_id'' = None \<and>
   no_faults (stores w (path db @ ''/colls/'' @ name)) \<and>
   openColl db w name = Some (lg, c) \<and>
   list_all (\<lambda>val. \<not> isl (json_Marshal val)) vals \<longrightarrow>
     files (store c) ''_next_id'' = Some (PutVarint 1) \<and>
     snd (Inserts json_Marshal c vals) = map (\<lambda>k. (of_nat k, None)) [1..<Suc (length vals)] \<and>
     (length vals < 2 ^ 63 \<longrightarrow>
        map (sint \<circ> fst) (snd (Inserts json_Marshal c vals)) = map int [1..<Suc (length vals)])"
proof (intro impI)
  assume a: "files (stores w (path db @ ''/colls/'' @ name)) ''_next_id'' = None \<and>
   no_faults (stores w (path db @ ''/colls/'' @ name)) \<and>
   openColl db w name = Some (lg, c) \<and>
   list_all (\<lambda>val. \<not> isl (json_Marshal val)) vals"
  then have at: "allocator_at c 1" using openColl_fresh [of w db name lg c] by simp
  have "snd (Inserts json_Marshal c vals) = map (\<lambda>k. (1 + of_nat k, None)) [0..<length vals]"
    using Inserts_at [of c 1 json_Marshal vals] at a by simp
  also have "\<dots> = map ((\<lambda>k. (of_nat k, None)) \<circ> Suc) [0..<length vals]"
    by (simp add: add.commute)
  also have "\<dots> = map (\<lambda>k. (of_nat k, None)) [1..<Suc (length vals)]"
    by (simp only: map_map [symmetric] map_Suc_upt) simp
  finally have ids: "snd (Inserts json_Marshal c vals) =
      map (\<lambda>k. (of_nat k, None)) [1..<Suc (length vals)]" .
  have "map (sint \<circ> fst) (snd (Inserts json_Marshal c vals)) = map int [1..<Suc (length vals)]"
    if "length vals < 2 ^ 63"
    using that by (simp only: ids map_map) (auto simp: sint_of_nat_small)
  with at ids show "files (store c) ''_next_id'' = Some (PutVarint 1) \<and>
     snd (Inserts json_Marshal c vals) = map (\<lambda>k. (of_nat k, None)) [1..<Suc (length vals)] \<and>
     (length vals < 2 ^ 63 \<longrightarrow>
        map (sint \<circ> fst) (snd (Inserts json_Marshal c vals)) = map int [1..<Suc (length vals)])"
    by (simp add: allocator_at_def)
qed

text \<open>
  Witness for C5: two records inserted into a collection opened on an empty store.
\<close>

theorem C5_ids_from_one_witness:
  "files (stores (fresh_world []) (path \<lparr>path = ''db''\<rparr> @ ''/colls/'' @ ''things'')) ''_next_id'' = None \<and>
   no_faults (stores (fresh_world []) (path \<lparr>path = ''db''\<rparr> @ ''/colls/'' @ ''things'')) \<and>
   openColl \<lparr>path = ''db''\<rparr> (fresh_world []) ''things'' = Some ([], opened_things) \<and>
   list_all (\<lambda>val. \<not> isl (example_Marshal val)) [Text ''a'', Text ''b''] \<and>
   length [Text ''a'', Text ''b''] < 2 ^ 63 \<and>
   files (store opened_things) ''_next_id'' = Some (PutVarint 1) \<and>
   snd (Inserts example_Marshal opened_things [Text ''a'', Text ''b'']) = [(1, None), (2, None)] \<and>
   map (sint \<circ> fst) (snd (Inserts example_Marshal opened_things [Text ''a'', Text ''b''])) = [1, 2]"
proof -
  have o: "openColl \<lparr>path = ''db''\<rparr> (fresh_world []) ''things'' = Some ([], opened_things)"
    by (simp add: openColl_def fresh_world_def loadIndexes_def walkFn_def ModeType_def
        diskv_Read_def next_fault_def setNextId_def diskv_Write_def opened_things_def)
  have h: "files (stores (fresh_world []) (path \<lparr>path = ''db''\<rparr> @ ''/colls/'' @ ''things'')) ''_next_id'' = None \<and>
      no_faults (stores (fresh_world []) (path \<lparr>path = ''db''\<rparr> @ ''/colls/'' @ ''things'')) \<and>
      list_all (\<lambda>val. \<not> isl (example_Marshal val)) [Text ''a'', Text ''b'']"
    by (simp add: fresh_world_def no_faults_def example_Marshal_def)
  have u: "[1..<Suc (length [Text ''a'', Text ''b''])] = [1, 2]"
    by (simp add: upt_conv_Cons)
  have n: "length [Text ''a'', Text ''b''] < 2 ^ 63"
    by simp
  show ?thesis
    using C5_ids_from_one [of "fresh_world []" "\<lparr>path = ''db''\<rparr>" "''things''" "[]"
        opened_things example_Marshal "[Text ''a'', Text ''b'']"] o h n
    by (simp only: u) simp
qed

section \<open>Properties of the index replay\<close>

text \<open>
  Claim C1, as the specification states it, has a tombstone remove the mapping of an earlier
  entry. \<^verbatim>\<open>loadIndex\<close> skips an entry flagged as deleted and removes nothing: replaying
  the entry \<^verbatim>\<open>(red, 1)\<close> followed by a tombstone for \<^verbatim>\<open>(red, 1)\<close> gives a table that
  still holds the mapping.
\<close>

theorem C1_tombstone_counterexample:
  "fst (loadIndex things_world things ''db/indexes/things/size'' ''size'') =
     things\<lparr>indexes := [''size'' \<mapsto>
        \<lparr>idx_file = ''db/indexes/things/size'', idx_field = ''size'', idx_data = {(''red'', 1)}\<rparr>]\<rparr>"
  by (simp add: loadIndex_def os_Open_def things_world_def tombstone_log_def entry_def
      newIndex_def Add_def Deleted_def things_def)

text \<open>
  Claim C1, amended. For every index log that ends cleanly, \<^verbatim>\<open>loadIndex\<close> succeeds and
  stores for the field the table that holds exactly the (fieldValue, identifier) mappings of
  the entries not flagged as deleted: N mappings for N such entries with pairwise distinct
  mappings. An entry flagged as deleted is skipped: it adds no mapping and removes none, so
  appending a tombstone to a log leaves the replayed table as it was.
\<close>

theorem C1_replay_surviving:
  "fs w p = Some file \<and> lf_end file = EOF \<longrightarrow>
     loadIndex w c p field =
       (c\<lparr>indexes := (indexes c)(field \<mapsto>
            \<lparr>idx_file = p, idx_field = field,
             idx_data = set (map mapping_of (live_entries (lf_records file)))\<rparr>)\<rparr>, None) \<and>
     (distinct (map mapping_of (live_entries (lf_records file))) \<longrightarrow>
        card (set (map mapping_of (live_entries (lf_records file)))) =
          length (live_entries (lf_records file))) \<and>
     (\<forall>(w'::World) n t. deleted t \<and> fs w' p = Some (file\<lparr>lf_records := lf_records file @ [(n, t)]\<rparr>) \<longrightarrow>
        loadIndex w' c p field = loadIndex w c p field)"
proof (intro impI conjI allI)
  assume a: "fs w p = Some file \<and> lf_end file = EOF"
  then show "loadIndex w c p field =
       (c\<lparr>indexes := (indexes c)(field \<mapsto>
            \<lparr>idx_file = p, idx_field = field,
             idx_data = set (map mapping_of (live_entries (lf_records file)))\<rparr>)\<rparr>, None)"
    by (simp add: loadIndex_clean)
  show "card (set (map mapping_of (live_entries (lf_records file)))) =
          length (live_entries (lf_records file))"
    if "distinct (map mapping_of (live_entries (lf_records file)))"
    using that distinct_card [of "map mapping_of (live_entries (lf_records file))"] by simp
  fix w' :: World and n t
  assume b: "deleted t \<and> fs w' p = Some (file\<lparr>lf_records := lf_records file @ [(n, t)]\<rparr>)"
  then have "live_entries (lf_records file @ [(n, t)]) = live_entries (lf_records file)"
    by (simp add: live_entries_def)
  with a b show "loadIndex w' c p field = loadIndex w c p field"
    using loadIndex_clean [of w' p "file\<lparr>lf_records := lf_records file @ [(n, t)]\<rparr>" c field]
    by (simp add: loadIndex_clean)
qed

text \<open>
  Witness for C1: the log of \<^verbatim>\<open>color\<close> with its three live entries, and the log of
  \<^verbatim>\<open>size\<close>, which is the log of a single entry with a tombstone appended.
\<close>

theorem C1_replay_surviving_witness:
  "fs things_world ''db/indexes/things/color'' = Some color_log \<and> lf_end color_log = EOF \<and>
   distinct (map mapping_of (live_entries (lf_records color_log))) \<and>
   length (live_entries (lf_records color_log)) = 3 \<and>
   loadIndex things_world things ''db/indexes/things/color'' ''color'' =
     (things\<lparr>indexes := (indexes things)(''color'' \<mapsto>
        \<lparr>idx_file = ''db/indexes/things/color'', idx_field = ''color'',
         idx_data = {(''red'', 1), (''blue'', 2), (''red'', 3)}\<rparr>)\<rparr>, None) \<and>
   card {(''red'', 1 :: Id), (''blue'', 2), (''red'', 3)} = 3 \<and>
   fs (things_world\<lparr>fs := [''db/indexes/things/size'' \<mapsto> single_log]\<rparr>)
      ''db/indexes/things/size'' = Some single_log \<and>
   lf_end single_log = EOF \<and> deleted (entry True ''red'' 1) \<and>
   fs things_world ''db/indexes/things/size'' =
     Some (single_log\<lparr>lf_records := lf_records single_log @ [(13, entry True ''red'' 1)]\<rparr>) \<and>
   loadIndex things_world things ''db/indexes/things/size'' ''size'' =
     loadIndex (things_world\<lparr>fs := [''db/indexes/things/size'' \<mapsto> single_log]\<rparr>) things
       ''db/indexes/things/size'' ''size''"
proof -
  let ?w = "things_world\<lparr>fs := [''db/indexes/things/size'' \<mapsto> single_log]\<rparr>"
  have h: "fs things_world ''db/indexes/things/color'' = Some color_log \<and> lf_end color_log = EOF"
    by (simp add: things_world_def color_log_def)
  have live: "map mapping_of (live_entries (lf_records color_log)) =
      [(''red'', 1), (''blue'', 2), (''red'', 3)]"
    by (simp add: color_log_def live_entries_def mapping_of_def entry_def)
  have first: "distinct (map mapping_of (live_entries (lf_records color_log))) \<and>
   length (live_entries (lf_records color_log)) = 3 \<and>
   loadIndex things_world things ''db/indexes/things/color'' ''color'' =
     (things\<lparr>indexes := (indexes things)(''color'' \<mapsto>
        \<lparr>idx_file = ''db/indexes/things/color'', idx_field = ''color'',
         idx_data = {(''red'', 1), (''blue'', 2), (''red'', 3)}\<rparr>)\<rparr>, None) \<and>
   card {(''red'', 1 :: Id), (''blue'', 2), (''red'', 3)} = 3"
    using C1_replay_surviving [of things_world "''db/indexes/things/color''" color_log things
        "''color''"] h
    by (simp add: live)
  have s: "fs ?w ''db/indexes/things/size'' = Some single_log \<and> lf_end single_log = EOF"
    by (simp add: single_log_def)
  have t: "deleted (entry True ''red'' 1) \<and>
      fs things_world ''db/indexes/things/size'' =
        Some (single_log\<lparr>lf_records := lf_records single_log @ [(13, entry True ''red'' 1)]\<rparr>)"
    by (simp add: entry_def things_world_def tombstone_log_def single_log_def)
  have second: "loadIndex things_world things ''db/indexes/things/size'' ''size'' =
      loadIndex ?w things ''db/indexes/things/size'' ''size''"
    using C1_replay_surviving [of ?w "''db/indexes/things/size''" single_log things "''size''",
        THEN mp, OF s] t
    by blast
  show ?thesis
    using h first s t second by (intro conjI) simp_all
qed

text \<open>
  Claim C8, as the specification states it, has the field of every log that cannot be decoded
  left without a table. The walk is recursive and the field of a file is the last element of
  its path: with a well-formed log \<^verbatim>\<open>things/color\<close> and a log \<^verbatim>\<open>things/old/color\<close>
  that is cut short, \<^verbatim>\<open>loadIndex\<close> returns the error for the second file, the error is
  logged, and the collection keeps the table of \<^verbatim>\<open>color\<close> loaded from the first file.
\<close>

theorem C8_nested_counterexample:
  "fs nested_world ''db/indexes/things/old/color'' = Some corrupt_log \<and>
   lf_end corrupt_log = errorString ''unexpected EOF'' \<and>
   Base ''db/indexes/things/old/color'' = ''color'' \<and>
   loadIndex nested_world things_loaded ''db/indexes/things/old/color'' ''color'' =
     (things_loaded, Some (errorString ''unexpected EOF'')) \<and>
   indexes things_loaded ''color'' =
     Some \<lparr>idx_file = ''db/indexes/things/color'', idx_field = ''color'',
           idx_data = {(''red'', 1), (''blue'', 2), (''red'', 3)}\<rparr> \<and>
   loadIndexes nested_world ([], things) =
     Some ([''loadIndex db/indexes/things/old/color failed: unexpected EOF''], things_loaded)"
  by (simp add: nested_world_def corrupt_log_def color_log_def Base_def loadIndex_def os_Open_def
      things_loaded_def things_def loadIndexes_def walkFn_def ModeType_def entry_def newIndex_def
      Add_def Deleted_def insert_commute)

text \<open>
  Claim C8, amended. For every index log whose replay hits a decode error other than a clean
  end of file, \<^verbatim>\<open>loadIndex\<close> returns that error and leaves the collection as it was; the
  function that \<^verbatim>\<open>loadIndexes\<close> gives to the walk logs the error and returns normally, and
  the walk goes on with the files after it: it ends without a panic when every other visit has
  its file info, and it ends with the collection that the walk without this file builds. In
  that collection every regular file of the walk whose log ends cleanly has its table under
  its base name, unless a later such file has the same base name, and the field of the bad file
  has no table when it had none before the walk and no such file has the same base name.
\<close>

theorem C8_decode_error_propagated:
  "fs w (v_path v) = Some file \<and> lf_end file \<noteq> EOF \<longrightarrow>
     loadIndex w c (v_path v) field = (c, Some (lf_end file)) \<and>
     (\<forall>mode. v_info v = Some mode \<and> mode AND ModeType = 0 \<longrightarrow>
        walkFn w (lg, c) v = Some (lg @ [load_failed (v_path v) (lf_end file)], c) \<and>
        Walk w (v # after) (lg, c) =
          Walk w after (lg @ [load_failed (v_path v) (lf_end file)], c) \<and>
        map_option snd (Walk w (before @ v # after) (lg, c)) =
          map_option snd (Walk w (before @ after) (lg, c)) \<and>
        ((\<forall>u \<in> set (before @ after). v_info u \<noteq> None) \<longrightarrow>
           Walk w (before @ v # after) (lg, c) \<noteq> None) \<and>
        (\<forall>lg' c'. Walk w (before @ v # after) (lg, c) = Some (lg', c') \<longrightarrow>
           (indexes c (Base (v_path v)) = None \<and>
            (\<forall>u \<in> set (before @ after). loadable w u \<longrightarrow> Base (v_path u) \<noteq> Base (v_path v)) \<longrightarrow>
              indexes c' (Base (v_path v)) = None) \<and>
           (\<forall>xs g ys gf. before @ after = xs @ g # ys \<and> loadable w g \<and>
              fs w (v_path g) = Some gf \<and>
              (\<forall>u \<in> set ys. loadable w u \<longrightarrow> Base (v_path u) \<noteq> Base (v_path g)) \<longrightarrow>
              indexes c' (Base (v_path g)) = Some (table_of (v_path g) gf))))"
proof (intro impI conjI allI)
  assume a: "fs w (v_path v) = Some file \<and> lf_end file \<noteq> EOF"
  then show "loadIndex w c (v_path v) field = (c, Some (lf_end file))"
    by (simp add: loadIndex_error)
  fix mode
  assume m: "v_info v = Some mode \<and> mode AND ModeType = 0"
  show step: "walkFn w (lg, c) v = Some (lg @ [load_failed (v_path v) (lf_end file)], c)" for lg c
    using a m by (simp add: walkFn_bad)
  show "Walk w (v # after) (lg, c) = Walk w after (lg @ [load_failed (v_path v) (lf_end file)], c)"
    by (simp add: step)
  show same: "map_option snd (Walk w (before @ v # after) (lg, c)) =
          map_option snd (Walk w (before @ after) (lg, c))"
  proof (cases "Walk w before (lg, c)")
    case None
    then show ?thesis by (simp add: Walk_append)
  next
    case (Some lc1)
    obtain l1 c1 where "lc1 = (l1, c1)" by (cases lc1)
    with Some show ?thesis
      using Walk_log_irrelevant [of w after "l1 @ [load_failed (v_path v) (lf_end file)]" c1 l1]
      by (simp add: Walk_append step)
  qed
  show "Walk w (before @ v # after) (lg, c) \<noteq> None"
    if "\<forall>u \<in> set (before @ after). v_info u \<noteq> None"
  proof -
    from that m have "\<forall>u \<in> set (before @ v # after). v_info u \<noteq> None" by auto
    then show ?thesis by (rule Walk_total)
  qed
  fix lg' c'
  assume wk: "Walk w (before @ v # after) (lg, c) = Some (lg', c')"
  with same obtain lg2 where without: "Walk w (before @ after) (lg, c) = Some (lg2, c')"
    by (cases "Walk w (before @ after) (lg, c)") auto
  show "indexes c' (Base (v_path v)) = None"
    if "indexes c (Base (v_path v)) = None \<and>
        (\<forall>u \<in> set (before @ after). loadable w u \<longrightarrow> Base (v_path u) \<noteq> Base (v_path v))"
    using Walk_keeps [OF without, of "Base (v_path v)"] that by simp
  fix xs g ys gf
  assume l: "before @ after = xs @ g # ys \<and> loadable w g \<and>
              fs w (v_path g) = Some gf \<and>
              (\<forall>u \<in> set ys. loadable w u \<longrightarrow> Base (v_path u) \<noteq> Base (v_path g))"
  with without have "Walk w (xs @ g # ys) (lg, c) = Some (lg2, c')" by simp
  then show "indexes c' (Base (v_path g)) = Some (table_of (v_path g) gf)"
    using l by (intro Walk_loads) auto
qed

text \<open>
  Witness for C8: the log of \<^verbatim>\<open>shape\<close> is cut short; loading the indexes logs one
  line, leaves \<^verbatim>\<open>shape\<close> without a table and loads the tables of the other two files.
\<close>

theorem C8_decode_error_propagated_witness:
  "fs things_world (v_path shape_visit) = Some corrupt_log \<and> lf_end corrupt_log \<noteq> EOF \<and>
   v_info shape_visit = Some 0x1A4 \<and> (0x1A4 :: FileMode) AND ModeType = 0 \<and>
   Base (v_path shape_visit) = ''shape'' \<and>
   loadIndex things_world things (v_path shape_visit) (Base (v_path shape_visit)) =
     (things, Some (errorString ''unexpected EOF'')) \<and>
   loadIndexes things_world ([], things) =
     Some ([''loadIndex db/indexes/things/shape failed: unexpected EOF''], things_indexed) \<and>
   indexes things (Base (v_path shape_visit)) = None \<and>
   indexes things_indexed (Base (v_path shape_visit)) = None \<and>
   loadable things_world \<lparr>v_path = ''db/indexes/things/color'', v_info = Some 0x1A4\<rparr> \<and>
   indexes things_indexed ''color'' = Some (table_of ''db/indexes/things/color'' color_log) \<and>
   loadable things_world \<lparr>v_path = ''db/indexes/things/size'', v_info = Some 0x1A4\<rparr> \<and>
   indexes things_indexed ''size'' = Some (table_of ''db/indexes/things/size'' tombstone_log)"
proof -
  let ?dir = "\<lparr>v_path = ''db/indexes/things'', v_info = Some 0x800001ED\<rparr>"
  let ?color = "\<lparr>v_path = ''db/indexes/things/color'', v_info = Some 0x1A4\<rparr>"
  let ?size = "\<lparr>v_path = ''db/indexes/things/size'', v_info = Some 0x1A4\<rparr>"
  let ?before = "[?dir, ?color]"
  let ?after = "[?size]"
  let ?log = "[''loadIndex db/indexes/things/shape failed: unexpected EOF'']"
  have h: "fs things_world (v_path shape_visit) = Some corrupt_log \<and> lf_end corrupt_log \<noteq> EOF"
    by (simp add: things_world_def shape_visit_def corrupt_log_def)
  have m: "v_info shape_visit = Some 0x1A4 \<and> (0x1A4 :: FileMode) AND ModeType = 0"
    by (simp add: shape_visit_def ModeType_def)
  have e: "lf_end corrupt_log = errorString ''unexpected EOF''"
    by (simp add: corrupt_log_def)
  have b: "Base (v_path shape_visit) = ''shape''"
    by (simp add: shape_visit_def Base_def)
  have bc: "Base (v_path ?color) = ''color''" and bs: "Base (v_path ?size) = ''size''"
    by (simp_all add: Base_def)
  have wk: "walks things_world (indexpath things) = ?before @ shape_visit # ?after"
    by (simp add: things_world_def things_def shape_visit_def)
  have a: "Walk things_world (?before @ shape_visit # ?after) ([], things) =
      Some (?log, things_indexed)"
    by (simp add: things_world_def things_def walkFn_def ModeType_def shape_visit_def
        loadIndex_def os_Open_def color_log_def corrupt_log_def tombstone_log_def entry_def
        newIndex_def Add_def Deleted_def Base_def insert_commute things_indexed_def)
  have n: "indexes things (Base (v_path shape_visit)) = None"
    by (simp add: things_def)
  have ld: "\<not> loadable things_world ?dir" "loadable things_world ?color"
    "loadable things_world ?size"
    by (simp_all add: loadable_def things_world_def ModeType_def color_log_def tombstone_log_def)
  have fc: "fs things_world (v_path ?color) = Some color_log"
    and fz: "fs things_world (v_path ?size) = Some tombstone_log"
    by (simp_all add: things_world_def)
  have o: "\<forall>u \<in> set (?before @ ?after).
      loadable things_world u \<longrightarrow> Base (v_path u) \<noteq> Base (v_path shape_visit)"
    using ld by (simp add: b) (simp add: Base_def)
  have oc: "\<forall>u \<in> set [?size].
      loadable things_world u \<longrightarrow> Base (v_path u) \<noteq> Base (v_path ?color)"
    by (simp add: Base_def)
  have oz: "\<forall>u \<in> set ([] :: visit list).
      loadable things_world u \<longrightarrow> Base (v_path u) \<noteq> Base (v_path ?size)"
    by simp
  have sc: "?before @ ?after = [?dir] @ ?color # [?size]"
    and sz: "?before @ ?after = [?dir, ?color] @ ?size # []"
    by simp_all
  note T = C8_decode_error_propagated [of things_world shape_visit corrupt_log things
      "Base (v_path shape_visit)" "[]" ?after ?before, THEN mp, OF h]
  from T have l: "loadIndex things_world things (v_path shape_visit) (Base (v_path shape_visit)) =
      (things, Some (errorString ''unexpected EOF''))"
    by (simp only: e)
  from T m a n o have f: "indexes things_indexed (Base (v_path shape_visit)) = None"
    by blast
  from T m a have all: "\<forall>xs g ys gf. ?before @ ?after = xs @ g # ys \<and> loadable things_world g \<and>
        fs things_world (v_path g) = Some gf \<and>
        (\<forall>u \<in> set ys. loadable things_world u \<longrightarrow> Base (v_path u) \<noteq> Base (v_path g)) \<longrightarrow>
        indexes things_indexed (Base (v_path g)) = Some (table_of (v_path g) gf)"
    by blast
  have c: "indexes things_indexed ''color'' = Some (table_of ''db/indexes/things/color'' color_log)"
    using all [rule_format, of "[?dir]" ?color "[?size]" color_log] sc ld fc oc
    by (simp only: bc) simp
  have z: "indexes things_indexed ''size'' = Some (table_of ''db/indexes/things/size'' tombstone_log)"
    using all [rule_format, of "[?dir, ?color]" ?size "[]" tombstone_log] sz ld fz oz
    by (simp only: bs) simp
  show ?thesis
    using h m l b a n f ld c z by (simp only: loadIndexes_def snd_conv wk) simp
qed

section \<open>Properties of the index operations and of the queries\<close>

text \<open>
  Claim C9. \<^verbatim>\<open>RemoveIndex\<close> drops the table of the field from the collection and removes
  the log file of the field. Whatever the removal does, the collection it leaves has no table
  for the field. When the file is there and can be removed, \<^verbatim>\<open>RemoveIndex\<close> returns no
  error and the file is gone. When the removal fails with an I/O error, \<^verbatim>\<open>RemoveIndex\<close>
  returns that error, the file is still there and the table is gone all the same; when there
  is no such file it returns the error of the removal as well.
\<close>

theorem C9_RemoveIndex:
  "fst (snd (RemoveIndex w c field)) = c\<lparr>indexes := (indexes c)(field := None)\<rparr> \<and>
   indexes (fst (snd (RemoveIndex w c field))) field = None \<and>
   (fs w (indexpath c @ ''/'' @ field) \<noteq> None \<and> \<not> remove_fails w (indexpath c @ ''/'' @ field) \<longrightarrow>
      RemoveIndex w c field =
        (w\<lparr>fs := (fs w)(indexpath c @ ''/'' @ field := None)\<rparr>,
         c\<lparr>indexes := (indexes c)(field := None)\<rparr>, None) \<and>
      fs (fst (RemoveIndex w c field)) (indexpath c @ ''/'' @ field) = None) \<and>
   (fs w (indexpath c @ ''/'' @ field) \<noteq> None \<and> remove_fails w (indexpath c @ ''/'' @ field) \<longrightarrow>
      RemoveIndex w c field =
        (w, c\<lparr>indexes := (indexes c)(field := None)\<rparr>,
         Some (errorString (''remove '' @ indexpath c @ ''/'' @ field @ '': input/output error''))) \<and>
      fs (fst (RemoveIndex w c field)) (indexpath c @ ''/'' @ field) =
        fs w (indexpath c @ ''/'' @ field)) \<and>
   (fs w (indexpath c @ ''/'' @ field) = None \<longrightarrow>
      RemoveIndex w c field =
        (w, c\<lparr>indexes := (indexes c)(field := None)\<rparr>,
         Some (errorString (''remove '' @ indexpath c @ ''/'' @ field @
                 '': no such file or directory''))))"
  by (auto simp: RemoveIndex_def os_Remove_def Let_def split: option.splits prod.splits)

text \<open>
  Witness for C9: the log of \<^verbatim>\<open>color\<close> cannot be removed and stays, the log of
  \<^verbatim>\<open>size\<close> is removed; both tables are dropped.
\<close>

theorem C9_RemoveIndex_witness:
  "fs things_world (indexpath things_loaded @ ''/'' @ ''color'') \<noteq> None \<and>
   remove_fails things_world (indexpath things_loaded @ ''/'' @ ''color'') \<and>
   indexes things_loaded ''color'' \<noteq> None \<and>
   RemoveIndex things_world things_loaded ''color'' =
     (things_world, things,
      Some (errorString ''remove db/indexes/things/color: input/output error'')) \<and>
   fs (fst (RemoveIndex things_world things_loaded ''color'')) ''db/indexes/things/color'' =
     Some color_log \<and>
   fs things_world (indexpath things_indexed @ ''/'' @ ''size'') \<noteq> None \<and>
   \<not> remove_fails things_world (indexpath things_indexed @ ''/'' @ ''size'') \<and>
   indexes things_indexed ''size'' \<noteq> None \<and>
   RemoveIndex things_world things_indexed ''size'' =
     (things_world\<lparr>fs := [''db/indexes/things/color'' \<mapsto> color_log,
                           ''db/indexes/things/shape'' \<mapsto> corrupt_log]\<rparr>,
      things_loaded, None) \<and>
   fs (fst (RemoveIndex things_world things_indexed ''size'')) ''db/indexes/things/size'' = None"
proof -
  have h: "fs things_world (indexpath things_loaded @ ''/'' @ ''color'') \<noteq> None \<and>
      remove_fails things_world (indexpath things_loaded @ ''/'' @ ''color'')"
    by (simp add: things_world_def things_loaded_def things_def)
  have k: "fs things_world (indexpath things_indexed @ ''/'' @ ''size'') \<noteq> None \<and>
      \<not> remove_fails things_world (indexpath things_indexed @ ''/'' @ ''size'')"
    by (simp add: things_world_def things_indexed_def things_def)
  have p: "indexpath things_loaded @ ''/'' @ ''color'' = ''db/indexes/things/color''"
    "indexpath things_indexed @ ''/'' @ ''size'' = ''db/indexes/things/size''"
    by (simp_all add: things_loaded_def things_indexed_def things_def)
  have ip: "indexpath things_loaded = ''db/indexes/things''"
    "indexpath things_indexed = ''db/indexes/things''"
    by (simp_all add: things_loaded_def things_indexed_def things_def)
  have c1: "things_loaded\<lparr>indexes := (indexes things_loaded)(''color'' := None)\<rparr> = things"
    by (simp add: things_loaded_def things_def)
  have c2: "things_indexed\<lparr>indexes := (indexes things_indexed)(''size'' := None)\<rparr> = things_loaded"
    by (simp add: things_loaded_def things_indexed_def things_def fun_upd_twist)
  have w2: "things_world\<lparr>fs := (fs things_world)(''db/indexes/things/size'' := None)\<rparr> =
      things_world\<lparr>fs := [''db/indexes/things/color'' \<mapsto> color_log,
                           ''db/indexes/things/shape'' \<mapsto> corrupt_log]\<rparr>"
    by (simp add: things_world_def)
  have f: "fs things_world ''db/indexes/things/color'' = Some color_log"
    by (simp add: things_world_def)
  have i: "indexes things_loaded ''color'' \<noteq> None \<and> indexes things_indexed ''size'' \<noteq> None"
    by (simp add: things_loaded_def things_indexed_def)
  note A = C9_RemoveIndex [of things_world things_loaded "''color''"]
  note B = C9_RemoveIndex [of things_world things_indexed "''size''"]
  from A h have fail: "RemoveIndex things_world things_loaded ''color'' =
      (things_world, things,
       Some (errorString ''remove db/indexes/things/color: input/output error''))"
    by (simp only: p c1) (simp add: ip)
  from B k have ok: "RemoveIndex things_world things_indexed ''size'' =
      (things_world\<lparr>fs := [''db/indexes/things/color'' \<mapsto> color_log,
                           ''db/indexes/things/shape'' \<mapsto> corrupt_log]\<rparr>,
       things_loaded, None)"
    by (simp only: p c2 w2) (simp add: ip)
  show ?thesis
    using h k i fail ok f by simp
qed

text \<open>
  Claim C2, as the specification states it, has \<^verbatim>\<open>QueryAll\<close> succeed on a collection with
  the records \<^verbatim>\<open>{1: "a", 2: "b"}\<close>. \<^verbatim>\<open>Query\<close> is a stub: on this collection
  \<^verbatim>\<open>QueryAll\<close> returns no result and the error \<^verbatim>\<open>"query failed"\<close>.
\<close>

theorem C2_QueryAll_counterexample:
  "files (store coll_ab) (Sprintf_d 1) = Some [0x22, 0x61, 0x22] \<and>
   files (store coll_ab) (Sprintf_d 2) = Some [0x22, 0x62, 0x22] \<and>
   QueryAll coll_ab = (None, Some (errorString ''query failed''))"
  by (simp add: QueryAll_def Query_def errors_New_def coll_ab_def Sprintf_d_def decimal.simps
      digit_char_def char_of_eq_iff)

text \<open>
  Claim C2, amended. \<^verbatim>\<open>QueryAll\<close> is \<^verbatim>\<open>Query\<close> with the always-true condition, and
  \<^verbatim>\<open>Query\<close> fails on every collection and condition with the error
  \<^verbatim>\<open>"query failed"\<close> and no result, whether or not any index exists.
\<close>

theorem C2_QueryAll_fails:
  "QueryAll c = Query c True_cond \<and> Query c q = (None, Some (errors_New ''query failed''))"
  by (simp add: QueryAll_def Query_def)

text \<open>
  Claim C3, as the specification states it, has \<^verbatim>\<open>AddIndex\<close> build an index.
  \<^verbatim>\<open>AddIndex\<close> is a stub: on a collection with a record that has the field it returns
  the error \<^verbatim>\<open>"adding index failed"\<close>, and there is neither a table nor a log file for
  the field.
\<close>

theorem C3_AddIndex_counterexample:
  "files (store coll_red) (Sprintf_d 1) \<noteq> None \<and>
   AddIndex (fresh_world []) coll_red ''color'' =
     (fresh_world [], coll_red, Some (errorString ''adding index failed'')) \<and>
   indexes coll_red ''color'' = None \<and>
   fs (fresh_world []) (indexpath coll_red @ ''/color'') = None"
  by (simp add: AddIndex_def errors_New_def coll_red_def Sprintf_d_def decimal.simps
      digit_char_def char_of_eq_iff fresh_world_def)

text \<open>
  Claim C3, amended. For every collection and field name, \<^verbatim>\<open>AddIndex\<close> fails with the
  error \<^verbatim>\<open>"adding index failed"\<close>; it scans no record, creates no log and leaves the
  collection and its indexes as they were.
\<close>

theorem C3_AddIndex_fails:
  "AddIndex w c field = (w, c, Some (errors_New ''adding index failed''))"
  by (simp add: AddIndex_def)

end
